theory Spec2Isabelle
  imports Main "HOL-Library.Finite_Map" "HOL-Library.Sublist"
begin

section \<open>The settings store of \<^verbatim>\<open>lib/database/settingdb.js\<close>\<close>

text \<open>
  A shallow embedding of the class \<^verbatim>\<open>SettingsDB\<close>: the in-memory caches, the
  getters and setters, and the load and save paths with their single-flight guard.

  Modelling decisions, all of them visible in the definitions below.
  \<^item> JavaScript values are the datatype \<open>jval\<close>. Numbers are integers plus \<open>NaN\<close>;
    strings are byte strings, and \<^verbatim>\<open>toLowerCase\<close> acts on the letters A to Z.
  \<^item> An object is its prototype together with the finite map of its own keys. A read
    \<^verbatim>\<open>o[k]\<close> walks the prototype chain, through \<^verbatim>\<open>Object.prototype\<close> and the
    accessor \<^verbatim>\<open>__proto__\<close>; a write \<^verbatim>\<open>o[k] = v\<close> stores an own key unless it meets
    that accessor. A \<^verbatim>\<open>Map\<close> is a finite map. A function value stands for a
    built-in that a read returned; the members of functions, some of them read-only,
    are not modelled, so what is proved of a read or a write through a prototype chain
    is proved for chains with no function in them (\<open>function_free\<close>).
  \<^item> Values are passed by value: that an argument may be the very object already
    stored is not modelled.
  \<^item> The clock, the outcome of every I/O operation and the content of the file system
    and of the external backend are inputs (\<open>env\<close>, \<open>world\<close>).
  \<^item> The text of a file is kept up to what \<^verbatim>\<open>JSON.parse\<close> makes of it: either the
    document it parses to, or text that does not parse. A document that parses is taken
    to follow the persisted schema, each of its three fields optional.
  \<^item> An \<^verbatim>\<open>async\<close> method is split at the suspension point of its physical write:
    \<open>save_begin\<close> runs up to the start of the write, \<open>save_finish\<close> from its completion.
\<close>

subsection \<open>Values\<close>

datatype jval =
    JUndefined
  | JNull
  | JBool bool
  | JNum int
  | JNaN
  | JStr string
  | JFun string
  | JArr "jval list"
  | JObj jval "(string, jval) fmap"
  | JObjectPrototype

text \<open>
  \<open>JObj p m\<close> is an object with prototype \<open>p\<close> (\<open>JNull\<close> for none) and own keys
  \<open>m\<close>; \<open>JObjectPrototype\<close> is \<^verbatim>\<open>Object.prototype\<close> itself. The containers of the store
  are objects too, kept as the pair of prototype and own keys.
\<close>

type_synonym props = "(string, jval) fmap"

type_synonym obj = "jval \<times> props"

datatype jtype = TUndefined | TObject | TBoolean | TNumber | TString | TFunction

text \<open>The operator \<^verbatim>\<open>typeof\<close>.\<close>

fun typeof :: "jval \<Rightarrow> jtype" where
  "typeof JUndefined = TUndefined"
| "typeof JNull = TObject"
| "typeof (JBool b) = TBoolean"
| "typeof (JNum n) = TNumber"
| "typeof JNaN = TNumber"
| "typeof (JStr s) = TString"
| "typeof (JFun f) = TFunction"
| "typeof (JArr xs) = TObject"
| "typeof (JObj p m) = TObject"
| "typeof JObjectPrototype = TObject"

text \<open>The conversion \<^verbatim>\<open>Boolean(v)\<close>.\<close>

fun Boolean :: "jval \<Rightarrow> bool" where
  "Boolean JUndefined = False"
| "Boolean JNull = False"
| "Boolean (JBool b) = b"
| "Boolean (JNum n) = (n \<noteq> 0)"
| "Boolean JNaN = False"
| "Boolean (JStr s) = (s \<noteq> [])"
| "Boolean (JFun f) = True"
| "Boolean (JArr xs) = True"
| "Boolean (JObj p m) = True"
| "Boolean JObjectPrototype = True"

text \<open>Whether the type of a value is Object, as the setter of \<^verbatim>\<open>__proto__\<close> asks.\<close>

fun is_object :: "jval \<Rightarrow> bool" where
  "is_object (JFun f) = True"
| "is_object (JArr xs) = True"
| "is_object (JObj p m) = True"
| "is_object JObjectPrototype = True"
| "is_object v = False"

text \<open>Decimal digits of a number, as an array index and a template literal print it.\<close>

fun show_nat :: "nat \<Rightarrow> string" where
  "show_nat n =
     (if n < 10 then [char_of (48 + n)] else show_nat (n div 10) @ [char_of (48 + n mod 10)])"

declare show_nat.simps [simp del]

text \<open>
  The data members of \<^verbatim>\<open>Object.prototype\<close> and of \<^verbatim>\<open>Array.prototype\<close> (ES2023), all of
  them functions. \<^verbatim>\<open>Object.prototype\<close> has the accessor \<^verbatim>\<open>__proto__\<close> besides.
\<close>

definition Object_prototype_names :: "string list" where
  "Object_prototype_names =
     [''constructor'', ''__defineGetter__'', ''__defineSetter__'', ''hasOwnProperty'',
      ''__lookupGetter__'', ''__lookupSetter__'', ''isPrototypeOf'', ''propertyIsEnumerable'',
      ''toString'', ''valueOf'', ''toLocaleString'']"

definition Array_prototype_names :: "string list" where
  "Array_prototype_names =
     [''at'', ''concat'', ''constructor'', ''copyWithin'', ''entries'', ''every'', ''fill'',
      ''filter'', ''find'', ''findIndex'', ''findLast'', ''findLastIndex'', ''flat'', ''flatMap'',
      ''forEach'', ''includes'', ''indexOf'', ''join'', ''keys'', ''lastIndexOf'', ''map'', ''pop'',
      ''push'', ''reduce'', ''reduceRight'', ''reverse'', ''shift'', ''slice'', ''some'', ''sort'',
      ''splice'', ''toLocaleString'', ''toReversed'', ''toSorted'', ''toSpliced'', ''toString'',
      ''unshift'', ''values'', ''with'']"

text \<open>What a lookup of a key finds: nothing, a data property, or the accessor.\<close>

datatype slot = Absent | Data jval | ProtoAccessor

definition object_prototype_slot :: "string \<Rightarrow> slot" where
  "object_prototype_slot k =
     (if k = ''__proto__'' then ProtoAccessor
      else if k \<in> set Object_prototype_names then Data (JFun (''Object.prototype.'' @ k))
      else Absent)"

text \<open>The own properties of an array: its elements under their indices, and its length.\<close>

definition array_own :: "jval list \<Rightarrow> string \<Rightarrow> jval option" where
  "array_own xs k =
     (if k = ''length'' then Some (JNum (int (length xs)))
      else map_of (zip (map show_nat [0..<length xs]) xs) k)"

text \<open>
  The property \<open>k\<close> as found from the object \<open>v\<close> up its prototype chain. A value
  that is no object ends the chain.
\<close>

primrec find_slot :: "jval \<Rightarrow> string \<Rightarrow> slot" where
  "find_slot JUndefined k = Absent"
| "find_slot JNull k = Absent"
| "find_slot (JBool b) k = Absent"
| "find_slot (JNum n) k = Absent"
| "find_slot JNaN k = Absent"
| "find_slot (JStr s) k = Absent"
| "find_slot (JFun f) k = object_prototype_slot k"
| "find_slot (JArr xs) k =
     (case array_own xs k of
        Some v \<Rightarrow> Data v
      | None \<Rightarrow>
          if k \<in> set Array_prototype_names then Data (JFun (''Array.prototype.'' @ k))
          else object_prototype_slot k)"
| "find_slot (JObj p m) k = (case fmlookup m k of Some v \<Rightarrow> Data v | None \<Rightarrow> find_slot p k)"
| "find_slot JObjectPrototype k = object_prototype_slot k"

text \<open>Whether no function stands in the prototype chain from \<open>v\<close> upwards.\<close>

primrec function_free :: "jval \<Rightarrow> bool" where
  "function_free JUndefined = True"
| "function_free JNull = True"
| "function_free (JBool b) = True"
| "function_free (JNum n) = True"
| "function_free JNaN = True"
| "function_free (JStr s) = True"
| "function_free (JFun f) = False"
| "function_free (JArr xs) = True"
| "function_free (JObj p m) = function_free p"
| "function_free JObjectPrototype = True"

text \<open>
  Property read \<^verbatim>\<open>o[key]\<close>: an own key, else what the prototype chain gives, else
  \<^verbatim>\<open>undefined\<close>. The getter of \<^verbatim>\<open>__proto__\<close> gives the prototype of \<open>o\<close>.
\<close>

definition jget :: "obj \<Rightarrow> string \<Rightarrow> jval" where
  "jget ob key =
     (case find_slot (JObj (fst ob) (snd ob)) key of
        Absent \<Rightarrow> JUndefined
      | Data v \<Rightarrow> v
      | ProtoAccessor \<Rightarrow> fst ob)"

text \<open>
  Property write \<^verbatim>\<open>o[key] = v\<close>: an own key is overwritten; a key that the chain
  resolves to the accessor \<^verbatim>\<open>__proto__\<close> runs its setter, which replaces the prototype
  of \<open>o\<close> when \<open>v\<close> is an object or \<^verbatim>\<open>null\<close> and does nothing otherwise; any other key
  becomes an own key.
\<close>

definition jset :: "obj \<Rightarrow> string \<Rightarrow> jval \<Rightarrow> obj" where
  "jset ob key v =
     (case fmlookup (snd ob) key of
        Some old \<Rightarrow> (fst ob, fmupd key v (snd ob))
      | None \<Rightarrow>
          (case find_slot (fst ob) key of
             ProtoAccessor \<Rightarrow> if is_object v \<or> v = JNull then (v, snd ob) else ob
           | other \<Rightarrow> (fst ob, fmupd key v (snd ob))))"

text \<open>The object literal \<^verbatim>\<open>{}\<close> and the result of \<^verbatim>\<open>Object.create(null)\<close>.\<close>

definition empty_object :: obj where
  "empty_object = (JObjectPrototype, fmempty)"

definition null_object :: obj where
  "null_object = (JNull, fmempty)"

definition lower_char :: "char \<Rightarrow> char" where
  "lower_char c =
     (let n = (of_char c :: nat) in if 65 \<le> n \<and> n \<le> 90 then char_of (n + 32) else c)"

definition toLowerCase :: "string \<Rightarrow> string" where
  "toLowerCase s = map lower_char s"

text \<open>
  \<^verbatim>\<open>
  function toBool(v) {
    if (v === true || v === 1) return true;
    if (v === false || v === 0) return false;
    if (typeof v === 'string') {
      return ['true', '1', 'yes', 'on'].includes(v.toLowerCase());
    }
    return Boolean(v);
  }
  \<close>
\<close>

definition toBool :: "jval \<Rightarrow> bool" where
  "toBool v =
     (if v = JBool True \<or> v = JNum 1 then True
      else if v = JBool False \<or> v = JNum 0 then False
      else (case v of
              JStr s \<Rightarrow> toLowerCase s \<in> set [''true'', ''1'', ''yes'', ''on'']
            | _ \<Rightarrow> Boolean v))"

subsection \<open>The store\<close>

datatype dbtype = Postgres | Mongodb | Mysql | File | Http

datatype scope = Global | Group string

datatype event =
    Update scope string jval
  | Saved
  | DeleteGroup string

text \<open>
  The fields of a \<^verbatim>\<open>SettingsDB\<close> instance. \<open>events\<close> is the log of what the instance
  has emitted, oldest first. \<open>autosaveTimer\<close> tells whether the interval timer is set.
\<close>

record store =
  file_path :: string
  autosaveInterval :: int
  autosaveTimer :: bool
  startupTime :: string
  databaseUrl :: "string option"
  useDb :: bool
  dbType :: "dbtype option"
  globalSettings :: obj
  groupSettings :: "(string, obj) fmap"
  updateTimes :: "(string, (string, string) fmap) fmap"
  dirty :: bool
  saving :: bool
  pendingSave :: bool
  events :: "event list"

text \<open>
  The Snapshot of the specification: the three mappings that the caches hold, each
  container by its own keys.
\<close>

definition snapshot ::
  "store \<Rightarrow> props \<times> (string, props) fmap \<times> (string, (string, string) fmap) fmap" where
  "snapshot s = (snd (globalSettings s), fmmap snd (groupSettings s), updateTimes s)"

text \<open>\<^verbatim>\<open>this.emit(...)\<close>\<close>

definition emit :: "event \<Rightarrow> store \<Rightarrow> store" where
  "emit e s = s\<lparr>events := events s @ [e]\<rparr>"

subsection \<open>Getters\<close>

text \<open>
  \<^verbatim>\<open>
  getMultiple(jid, keys = [], defaults = {}) {
    const out = {};
    const groupCfg = jid ? this.groupSettings.get(jid) : null;
    for (const key of keys) {
      let val;
      if (groupCfg && groupCfg[key] !== undefined) { val = groupCfg[key]; }
      else if (this.globalSettings[key] !== undefined) { val = this.globalSettings[key]; }
      else { val = defaults[key]; }
      out[key] = (typeof defaults[key] === 'boolean') ? toBool(val) : val;
    }
    return out;
  }
  \<close>
  The scope \<open>jid\<close> is \<open>None\<close> for \<^verbatim>\<open>null\<close>; the empty string is falsy as well.
\<close>

definition groupCfg_of :: "store \<Rightarrow> string option \<Rightarrow> obj option" where
  "groupCfg_of s jid =
     (case jid of
        None \<Rightarrow> None
      | Some j \<Rightarrow> if j \<noteq> [] then fmlookup (groupSettings s) j else None)"

text \<open>The value of \<^verbatim>\<open>out[key]\<close> for one key of the loop.\<close>

definition resolve :: "store \<Rightarrow> obj option \<Rightarrow> obj \<Rightarrow> string \<Rightarrow> jval" where
  "resolve s groupCfg defaults key =
     (let val =
        (if groupCfg \<noteq> None \<and> jget (the groupCfg) key \<noteq> JUndefined then jget (the groupCfg) key
         else if jget (globalSettings s) key \<noteq> JUndefined then jget (globalSettings s) key
         else jget defaults key)
      in if typeof (jget defaults key) = TBoolean then JBool (toBool val) else val)"

definition getMultiple :: "store \<Rightarrow> string option \<Rightarrow> string list \<Rightarrow> obj \<Rightarrow> obj" where
  "getMultiple s jid keys defaults =
     (let groupCfg = groupCfg_of s jid
      in foldl (\<lambda>out key. jset out key (resolve s groupCfg defaults key)) empty_object keys)"

subsection \<open>Library functions the class calls\<close>

text \<open>
  \<^verbatim>\<open>new URL(u).protocol\<close>: the scheme in lower case with its colon, or \<open>None\<close> where
  the constructor throws because \<open>u\<close> starts with no scheme. The other checks of the
  constructor (of the host and the port) and its stripping of white space around \<open>u\<close>
  are not modelled.
\<close>

definition is_alpha :: "char \<Rightarrow> bool" where
  "is_alpha c = (let n = (of_char c :: nat) in (65 \<le> n \<and> n \<le> 90) \<or> (97 \<le> n \<and> n \<le> 122))"

definition is_scheme_char :: "char \<Rightarrow> bool" where
  "is_scheme_char c =
     (let n = (of_char c :: nat)
      in is_alpha c \<or> (48 \<le> n \<and> n \<le> 57) \<or> c = CHR ''+'' \<or> c = CHR ''-'' \<or> c = CHR ''.'')"

definition URL_protocol :: "string \<Rightarrow> string option" where
  "URL_protocol u =
     (let sch = takeWhile (\<lambda>c. c \<noteq> CHR '':'') u
      in if length sch = length u \<or> sch = [] \<or> \<not> is_alpha (hd sch) \<or> \<not> list_all is_scheme_char sch
         then None
         else Some (toLowerCase sch @ '':''))"

text \<open>
  \<^verbatim>\<open>new URL(u).pathname\<close>, for a \<open>u\<close> that has a scheme: what follows the authority,
  up to the query or fragment, with a leading slash. Percent-encoding and the removal of
  dot segments are not modelled.
\<close>

definition URL_pathname :: "string \<Rightarrow> string" where
  "URL_pathname u =
     (let rest = drop 1 (dropWhile (\<lambda>c. c \<noteq> CHR '':'') u);
          p = (if take 2 rest = ''//'' then dropWhile (\<lambda>c. c \<noteq> CHR ''/'') (drop 2 rest) else rest);
          q = takeWhile (\<lambda>c. c \<noteq> CHR ''?'' \<and> c \<noteq> CHR ''#'') p
      in if take 1 q = ''/'' then q else CHR ''/'' # q)"

text \<open>
  What \<^verbatim>\<open>JSON.stringify\<close> followed by \<^verbatim>\<open>JSON.parse\<close> makes of a value: only own keys
  are written; a property whose value is \<^verbatim>\<open>undefined\<close> or a function is left out;
  \<^verbatim>\<open>undefined\<close> or a function in an array and \<^verbatim>\<open>NaN\<close> become \<^verbatim>\<open>null\<close>; every object
  that is read back is an ordinary one.
\<close>

primrec json_norm :: "jval \<Rightarrow> jval" where
  "json_norm JUndefined = JUndefined"
| "json_norm JNull = JNull"
| "json_norm (JBool b) = JBool b"
| "json_norm (JNum n) = JNum n"
| "json_norm JNaN = JNull"
| "json_norm (JStr s) = JStr s"
| "json_norm (JFun f) = JUndefined"
| "json_norm (JArr xs) = JArr (map (\<lambda>v. if v = JUndefined then JNull else v) (map json_norm xs))"
| "json_norm (JObj p m) =
     JObj JObjectPrototype
       (fmfilter (\<lambda>k. fmlookup (fmmap json_norm m) k \<noteq> Some JUndefined) (fmmap json_norm m))"
| "json_norm JObjectPrototype = JObj JObjectPrototype fmempty"

definition norm_obj :: "props \<Rightarrow> props" where
  "norm_obj m =
     fmfilter (\<lambda>k. fmlookup (fmmap json_norm m) k \<noteq> Some JUndefined) (fmmap json_norm m)"

text \<open>
  A value that JSON can carry: no \<^verbatim>\<open>undefined\<close>, \<^verbatim>\<open>NaN\<close> or function anywhere in it,
  and every object in it an ordinary one.
\<close>

primrec serializable :: "jval \<Rightarrow> bool" where
  "serializable JUndefined = False"
| "serializable JNull = True"
| "serializable (JBool b) = True"
| "serializable (JNum n) = True"
| "serializable JNaN = False"
| "serializable (JStr s) = True"
| "serializable (JFun f) = False"
| "serializable (JArr xs) = list_all (\<lambda>b. b) (map serializable xs)"
| "serializable (JObj p m) = (p = JObjectPrototype \<and> fmpred (\<lambda>k b. b) (fmmap serializable m))"
| "serializable JObjectPrototype = False"

definition serializable_obj :: "props \<Rightarrow> bool" where
  "serializable_obj m = fmpred (\<lambda>k v. serializable v) m"

text \<open>
  The own enumerable properties of a value, as the spread \<^verbatim>\<open>{...v}\<close> copies them.
\<close>

definition own_props :: "jval \<Rightarrow> props" where
  "own_props v =
     (case v of
        JObj p m \<Rightarrow> m
      | JArr xs \<Rightarrow> fmap_of_list (zip (map show_nat [0..<length xs]) xs)
      | JStr s \<Rightarrow> fmap_of_list (zip (map show_nat [0..<length s]) (map (\<lambda>c. JStr [c]) s))
      | _ \<Rightarrow> fmempty)"

subsection \<open>The environment\<close>

datatype error =
    InvalidURL
  | UnsupportedProtocol string
  | DriverError
  | UnsupportedDbType
  | IOError
  | InvalidArguments
  | ConfigObjNotObject

datatype io_outcome = IoOk | WriteFailed | RenameFailed

text \<open>
  What a call reads from outside the instance: the clock, and how each I/O operation it
  awaits ends.
\<close>

record env =
  now :: string
  now_ms :: nat
  driver_ok :: bool
  remote_ok :: bool
  read_ok :: bool
  copy_ok :: bool
  write_res :: io_outcome

text \<open>The persisted document, each field optional as \<^verbatim>\<open>load\<close> reads it.\<close>

record document =
  doc_globalSettings :: "props option"
  doc_groupSettings :: "(string, props) fmap option"
  doc_updateTimes :: "(string, (string, string) fmap option) fmap option"

datatype content = Json document | Garbage string

text \<open>
  The local file system (path to content) and the row or document kept under the id
  \<^verbatim>\<open>'default'\<close> by the external backend.
\<close>

record world =
  fs :: "(string, content) fmap"
  remote :: "content option"

text \<open>
  A physical write that has started: to the local temporary file, or to the backend
  through the driver chosen, with the target path the \<^verbatim>\<open>file\<close> driver writes.
\<close>

datatype pwrite = LocalWrite string document | RemoteWrite dbtype string document

subsection \<open>Construction\<close>

record opts =
  opt_file :: "string option"
  opt_autosaveInterval :: "int option"
  opt_databaseUrl :: "string option"

text \<open>\<^verbatim>\<open>path.join(__dirname, 'data', 'settings_db.json')\<close>, seen from the repository.\<close>

definition DEFAULT_FILE :: string where
  "DEFAULT_FILE = ''lib/database/data/settings_db.json''"

text \<open>\<^verbatim>\<open>o || d\<close> for an optional string: missing and empty are both falsy.\<close>

definition truthy_str :: "string option \<Rightarrow> string option" where
  "truthy_str o_s = (case o_s of None \<Rightarrow> None | Some x \<Rightarrow> if x = [] then None else Some x)"

text \<open>
  The constructor. \<^verbatim>\<open>globalSettings\<close> starts as \<^verbatim>\<open>Object.create(null)\<close>. The data
  directory it creates, and the client placeholders, which are set together with
  \<open>dbType\<close>, are left out.
\<close>

definition new_SettingsDB :: "env \<Rightarrow> opts \<Rightarrow> store" where
  "new_SettingsDB e os =
     (let interval = (case opt_autosaveInterval os of Some n \<Rightarrow> n | None \<Rightarrow> 5000)
      in \<lparr> file_path = (case truthy_str (opt_file os) of Some f \<Rightarrow> f | None \<Rightarrow> DEFAULT_FILE),
           autosaveInterval = interval,
           autosaveTimer = (interval > 0),
           startupTime = now e,
           databaseUrl = truthy_str (opt_databaseUrl os),
           useDb = (truthy_str (opt_databaseUrl os) \<noteq> None),
           dbType = None,
           globalSettings = null_object,
           groupSettings = fmempty,
           updateTimes = fmempty,
           dirty = False,
           saving = False,
           pendingSave = False,
           events = [] \<rparr>)"

subsection \<open>Drivers\<close>

text \<open>
  \<^verbatim>\<open>_initDbClients\<close>. The first component is the error thrown, if any; a recognised scheme
  sets \<open>dbType\<close> before the driver is contacted, so a driver failure leaves it set.
  \<^verbatim>\<open>
    const url = new URL(this.databaseUrl);
    const proto = url.protocol.replace(':', '');
    if (proto === 'postgres' || proto === 'postgresql') { this._dbType = 'postgres'; ... return; }
    if (proto === 'mongodb') { this._dbType = 'mongodb'; ... return; }
    if (proto === 'mysql') { this._dbType = 'mysql'; ... return; }
    if (proto === 'file') { this._dbType = 'file'; return; }
    if (proto === 'http' || proto === 'https') { this._dbType = 'http'; return; }
    throw new Error(`Unsupported databaseUrl protocol: ${proto}`);
  \<close>
\<close>

definition initDbClients :: "env \<Rightarrow> store \<Rightarrow> error option \<times> store" where
  "initDbClients e s =
     (if \<not> useDb s then (None, s)
      else (case (case databaseUrl s of None \<Rightarrow> None | Some u \<Rightarrow> URL_protocol u) of
              None \<Rightarrow> (Some InvalidURL, s)
            | Some protocol \<Rightarrow>
                (let proto = remove1 (CHR '':'') protocol;
                     contacted = (if driver_ok e then None else Some DriverError)
                 in if proto = ''postgres'' \<or> proto = ''postgresql''
                      then (contacted, s\<lparr>dbType := Some Postgres\<rparr>)
                    else if proto = ''mongodb'' then (contacted, s\<lparr>dbType := Some Mongodb\<rparr>)
                    else if proto = ''mysql'' then (contacted, s\<lparr>dbType := Some Mysql\<rparr>)
                    else if proto = ''file'' then (None, s\<lparr>dbType := Some File\<rparr>)
                    else if proto = ''http'' \<or> proto = ''https'' then (None, s\<lparr>dbType := Some Http\<rparr>)
                    else (Some (UnsupportedProtocol proto), s))))"

text \<open>\<^verbatim>\<open>if (this._useDb && !this._dbType) await this._initDbClients();\<close>\<close>

definition initClientsIfNeeded :: "env \<Rightarrow> store \<Rightarrow> error option \<times> store" where
  "initClientsIfNeeded e s = (if useDb s \<and> dbType s = None then initDbClients e s else (None, s))"

text \<open>The target of the \<^verbatim>\<open>file\<close> driver.\<close>

definition remote_target :: "store \<Rightarrow> string" where
  "remote_target s = URL_pathname (case databaseUrl s of None \<Rightarrow> [] | Some u \<Rightarrow> u)"

text \<open>
  \<^verbatim>\<open>_remoteLoad\<close>: the document of the backend, or \<open>None\<close> for \<^verbatim>\<open>null\<close>. Every failure
  of the read and of the parse is caught inside and gives \<^verbatim>\<open>null\<close>; only the driver
  initialisation in front of the \<^verbatim>\<open>try\<close> can throw.
\<close>

definition remoteLoad :: "env \<Rightarrow> store \<Rightarrow> world \<Rightarrow> error option \<times> store \<times> document option" where
  "remoteLoad e s w =
     (if \<not> useDb s then (None, s, None)
      else (case initClientsIfNeeded e s of
              (Some err, s1) \<Rightarrow> (Some err, s1, None)
            | (None, s1) \<Rightarrow>
                (None, s1,
                 (case dbType s1 of
                    None \<Rightarrow> None
                  | Some File \<Rightarrow>
                      (case fmlookup (fs w) (remote_target s1) of
                         None \<Rightarrow> None
                       | Some c \<Rightarrow>
                           if \<not> remote_ok e then None
                           else (case c of Json d \<Rightarrow> Some d | Garbage x \<Rightarrow> None))
                  | Some other \<Rightarrow>
                      if \<not> remote_ok e then None
                      else (case remote w of Some (Json d) \<Rightarrow> Some d | _ \<Rightarrow> None)))))"

subsection \<open>Saving\<close>

text \<open>
  The object that \<^verbatim>\<open>save\<close> builds from the caches, as the backend will hold it.
  \<^verbatim>\<open>
      const obj = {
        globalSettings: this.globalSettings,
        groupSettings: Object.fromEntries(this.groupSettings),
        updateTimes: Object.fromEntries(
          Array.from(this.updateTimes.entries()).map(([k, vMap]) => [k, Object.fromEntries(vMap)]))
      };
  \<close>
\<close>

definition to_document :: "store \<Rightarrow> document" where
  "to_document s =
     \<lparr> doc_globalSettings = Some (norm_obj (snd (globalSettings s))),
       doc_groupSettings = Some (fmmap (\<lambda>g. norm_obj (snd g)) (groupSettings s)),
       doc_updateTimes = Some (fmmap Some (updateTimes s)) \<rparr>"

text \<open>
  \<^verbatim>\<open>save\<close>, up to the start of its physical write.
  \<^verbatim>\<open>
    if (this._saving) { this._pendingSave = true; return; }
    this._saving = true;
    this._pendingSave = false;
    try {
      const obj = ...;
      if (this._useDb) { await this.initClientsIfNeeded(); await this._remoteSave(obj); ... }
      else { const tmp = `${this.file}.tmp`; await fs.promises.writeFile(tmp, JSON.stringify(obj, null, 2), 'utf8'); ... }
    } catch (err) { this._saving = false; ...; throw err; }
  \<close>
  The driver and its target are read when \<^verbatim>\<open>_remoteSave\<close> is entered, which throws
  \<^verbatim>\<open>Unsupported DB type for remoteSave\<close> where no driver is set. The result is the error
  thrown, the instance, and the write that is now in flight.
\<close>

definition save_begin :: "env \<Rightarrow> store \<Rightarrow> error option \<times> store \<times> pwrite option" where
  "save_begin e s =
     (if saving s then (None, s\<lparr>pendingSave := True\<rparr>, None)
      else (let s1 = s\<lparr>saving := True, pendingSave := False\<rparr>;
                obj = to_document s1
            in if useDb s1
               then (case initClientsIfNeeded e s1 of
                       (Some err, s2) \<Rightarrow> (Some err, s2\<lparr>saving := False\<rparr>, None)
                     | (None, s2) \<Rightarrow>
                         (case dbType s2 of
                            None \<Rightarrow> (Some UnsupportedDbType, s2\<lparr>saving := False\<rparr>, None)
                          | Some t \<Rightarrow> (None, s2, Some (RemoteWrite t (remote_target s2) obj))))
               else (None, s1, Some (LocalWrite (file_path s1 @ ''.tmp'') obj))))"

text \<open>
  The success branch after the write.
  \<^verbatim>\<open>
        this._dirty = false;
        this._saving = false;
        this.emit('saved');
      ...
      if (this._pendingSave) {
        this._pendingSave = false;
        setImmediate(() => this.save().catch(() => {}));
      }
  \<close>
  The last component tells whether a callback was handed to \<^verbatim>\<open>setImmediate\<close>.
\<close>

definition save_success :: "store \<Rightarrow> world \<Rightarrow> error option \<times> store \<times> world \<times> bool" where
  "save_success s w =
     (let s1 = emit Saved (s\<lparr>dirty := False, saving := False\<rparr>)
      in if pendingSave s1 then (None, s1\<lparr>pendingSave := False\<rparr>, w, True)
         else (None, s1, w, False))"

definition save_failure :: "error \<Rightarrow> store \<Rightarrow> world \<Rightarrow> error option \<times> store \<times> world \<times> bool" where
  "save_failure err s w = (Some err, s\<lparr>saving := False\<rparr>, w, False)"

text \<open>
  What the physical write leaves in the world. Locally the write is \<^verbatim>\<open>writeFile(tmp)\<close>
  then \<^verbatim>\<open>rename(tmp, this.file)\<close>; remotely it is \<^verbatim>\<open>_remoteSave\<close>, which writes the
  target file of the \<^verbatim>\<open>file\<close> driver or the row of the backend.
\<close>

definition write_effect :: "io_outcome \<Rightarrow> pwrite \<Rightarrow> store \<Rightarrow> world \<Rightarrow> world" where
  "write_effect res wr s w =
     (case wr of
        LocalWrite tmp d \<Rightarrow>
          (case res of
             WriteFailed \<Rightarrow> w
           | RenameFailed \<Rightarrow> w\<lparr>fs := fmupd tmp (Json d) (fs w)\<rparr>
           | IoOk \<Rightarrow> w\<lparr>fs := fmupd (file_path s) (Json d) (fmdrop tmp (fs w))\<rparr>)
      | RemoteWrite t target d \<Rightarrow>
          if res \<noteq> IoOk then w
          else if t = File then w\<lparr>fs := fmupd target (Json d) (fs w)\<rparr>
          else w\<lparr>remote := Some (Json d)\<rparr>)"

text \<open>
  \<^verbatim>\<open>save\<close>, from the completion of its physical write: the success branch, or the
  \<^verbatim>\<open>catch\<close> block.
\<close>

definition save_finish ::
  "io_outcome \<Rightarrow> pwrite \<Rightarrow> store \<Rightarrow> world \<Rightarrow> error option \<times> store \<times> world \<times> bool" where
  "save_finish res wr s w =
     (if res = IoOk then save_success s (write_effect res wr s w)
      else save_failure IOError s (write_effect res wr s w))"

text \<open>
  \<^verbatim>\<open>await this.save()\<close> with nothing else running in between: the write that starts,
  if one does, ends as \<open>write_res\<close> says. The last component is the write performed.
\<close>

definition save_run :: "env \<Rightarrow> store \<Rightarrow> world \<Rightarrow> error option \<times> store \<times> world \<times> pwrite option" where
  "save_run e s w =
     (case save_begin e s of
        (err, s1, None) \<Rightarrow> (err, s1, w, None)
      | (err, s1, Some wr) \<Rightarrow>
          (case save_finish (write_res e) wr s1 w of
             (err2, s2, w2, again) \<Rightarrow> (err2, s2, w2, Some wr)))"

subsection \<open>Loading\<close>

text \<open>
  The assignments of \<^verbatim>\<open>load\<close> once it has a document; what \<^verbatim>\<open>JSON.parse\<close> and
  \<^verbatim>\<open>{}\<close> give are ordinary objects.
  \<^verbatim>\<open>
      this.globalSettings = json.globalSettings || {};
      const gs = json.groupSettings || {};
      this.groupSettings = new Map(Object.entries(gs));
      const utRaw = json.updateTimes || {};
      this.updateTimes = new Map(Object.entries(utRaw).map(([k, v]) => [k, new Map(Object.entries(v || {}))]));
      this._startupTime = new Date().toISOString();
      this._dirty = false;
      return true;
  \<close>
\<close>

definition adopt :: "env \<Rightarrow> document \<Rightarrow> store \<Rightarrow> store" where
  "adopt e d s =
     s\<lparr> globalSettings :=
          (JObjectPrototype, case doc_globalSettings d of None \<Rightarrow> fmempty | Some g \<Rightarrow> g),
        groupSettings :=
          (case doc_groupSettings d of
             None \<Rightarrow> fmempty
           | Some g \<Rightarrow> fmmap (\<lambda>m. (JObjectPrototype, m)) g),
        updateTimes :=
          (case doc_updateTimes d of
             None \<Rightarrow> fmempty
           | Some u \<Rightarrow> fmmap (\<lambda>v. case v of None \<Rightarrow> fmempty | Some m \<Rightarrow> m) u),
        startupTime := now e,
        dirty := False \<rparr>"

text \<open>\<^verbatim>\<open>`${this.file}.corrupt.${Date.now()}`\<close>\<close>

definition corruptPath :: "env \<Rightarrow> store \<Rightarrow> string" where
  "corruptPath e s = file_path s @ ''.corrupt.'' @ show_nat (now_ms e)"

text \<open>
  The \<^verbatim>\<open>catch\<close> block of \<^verbatim>\<open>load\<close>; a failure of the copy is swallowed.
  \<^verbatim>\<open>
      try {
        if (fs.existsSync(this.file)) {
          const corruptPath = `${this.file}.corrupt.${Date.now()}`;
          await fs.promises.copyFile(this.file, corruptPath);
        }
      } catch (_) {}
      return false;
  \<close>
\<close>

definition load_catch :: "env \<Rightarrow> store \<Rightarrow> world \<Rightarrow> bool \<times> store \<times> world \<times> pwrite option" where
  "load_catch e s w =
     (case fmlookup (fs w) (file_path s) of
        None \<Rightarrow> (False, s, w, None)
      | Some c \<Rightarrow>
          (False, s, (if copy_ok e then w\<lparr>fs := fmupd (corruptPath e s) c (fs w)\<rparr> else w), None))"

text \<open>
  \<^verbatim>\<open>_writeInitialFile\<close>: the caches are emptied (\<^verbatim>\<open>this.globalSettings = {}\<close>) and
  \<^verbatim>\<open>save\<close> is awaited, its error logged and dropped.
\<close>

definition writeInitialFile :: "env \<Rightarrow> store \<Rightarrow> world \<Rightarrow> store \<times> world \<times> pwrite option" where
  "writeInitialFile e s w =
     (case save_run e
             (s\<lparr>globalSettings := empty_object, groupSettings := fmempty, updateTimes := fmempty\<rparr>) w of
        (err, s1, w1, wr) \<Rightarrow> (s1, w1, wr))"

text \<open>
  The local part of \<^verbatim>\<open>load\<close>.
  \<^verbatim>\<open>
      if (!fs.existsSync(this.file)) { await this._writeInitialFile(); return true; }
      const raw = await fs.promises.readFile(this.file, 'utf8');
      const json = JSON.parse(raw);
  \<close>
\<close>

definition load_local :: "env \<Rightarrow> store \<Rightarrow> world \<Rightarrow> bool \<times> store \<times> world \<times> pwrite option" where
  "load_local e s w =
     (case fmlookup (fs w) (file_path s) of
        None \<Rightarrow> (case writeInitialFile e s w of (s1, w1, wr) \<Rightarrow> (True, s1, w1, wr))
      | Some c \<Rightarrow>
          if \<not> read_ok e then load_catch e s w
          else (case c of
                  Json d \<Rightarrow> (True, adopt e d s, w, None)
                | Garbage x \<Rightarrow> load_catch e s w))"

text \<open>
  \<^verbatim>\<open>load\<close>: what it returns, the instance and the world after it, and the physical
  write it performed, if any.
  \<^verbatim>\<open>
      if (this._useDb) {
        await this.initClientsIfNeeded();
        const data = await this._remoteLoad();
        if (data) { ...; return true; }
      }
  \<close>
\<close>

definition load :: "env \<Rightarrow> store \<Rightarrow> world \<Rightarrow> bool \<times> store \<times> world \<times> pwrite option" where
  "load e s w =
     (if useDb s
      then (case initClientsIfNeeded e s of
              (Some err, s1) \<Rightarrow> load_catch e s1 w
            | (None, s1) \<Rightarrow>
                (case remoteLoad e s1 w of
                   (Some err, s2, d) \<Rightarrow> load_catch e s2 w
                 | (None, s2, Some d) \<Rightarrow> (True, adopt e d s2, w, None)
                 | (None, s2, None) \<Rightarrow> load_local e s2 w))
      else load_local e s w)"

text \<open>
  The exported \<^verbatim>\<open>init\<close>, on the singleton \<open>s\<close>. The value of \<^verbatim>\<open>load\<close> is dropped.
  \<^verbatim>\<open>
    if (opts.file) _db.file = opts.file;
    if (typeof opts.autosaveInterval === 'number') { ... }
    if (opts.databaseUrl) { _db.databaseUrl = opts.databaseUrl; _db._useDb = true; }
    await _db.load();
    return _db;
  \<close>
  \<open>Inl\<close> is a rejection of the promise, \<open>Inr\<close> the instance handed to the caller.
\<close>

definition init_opts :: "opts \<Rightarrow> store \<Rightarrow> store" where
  "init_opts os s =
     (let s1 = (case truthy_str (opt_file os) of None \<Rightarrow> s | Some f \<Rightarrow> s\<lparr>file_path := f\<rparr>);
          s2 = (case opt_autosaveInterval os of
                  None \<Rightarrow> s1
                | Some n \<Rightarrow> s1\<lparr>autosaveInterval := n, autosaveTimer := (n > 0)\<rparr>)
      in (case truthy_str (opt_databaseUrl os) of
            None \<Rightarrow> s2
          | Some u \<Rightarrow> s2\<lparr>databaseUrl := Some u, useDb := True\<rparr>))"

definition init :: "env \<Rightarrow> opts \<Rightarrow> store \<Rightarrow> world \<Rightarrow> error + store \<times> world" where
  "init e os s w = (case load e (init_opts os s) w of (ok, s1, w1, wr) \<Rightarrow> Inr (s1, w1))"

subsection \<open>Setters\<close>

text \<open>
  \<^verbatim>\<open>
  _isJid(val) {
    return typeof val === 'string' && (val.endsWith('@g.us') || val.includes('@'));
  }
  \<close>
\<close>

definition isJid :: "string \<Rightarrow> bool" where
  "isJid val = (suffix ''@g.us'' val \<or> CHR ''@'' \<in> set val)"

text \<open>
  \<^verbatim>\<open>
  _setUpdateTime(jidOrGlobal, pluginName) {
    const key = jidOrGlobal || 'global';
    const m = this.updateTimes.get(key) || new Map();
    m.set(pluginName, new Date().toISOString());
    this.updateTimes.set(key, m);
  }
  \<close>
\<close>

definition setUpdateTime :: "env \<Rightarrow> string \<Rightarrow> string \<Rightarrow> store \<Rightarrow> store" where
  "setUpdateTime e jidOrGlobal pluginName s =
     (let key = (if jidOrGlobal = [] then ''global'' else jidOrGlobal);
          m = (case fmlookup (updateTimes s) key of None \<Rightarrow> fmempty | Some m \<Rightarrow> m)
      in s\<lparr>updateTimes := fmupd key (fmupd pluginName (now e) m) (updateTimes s)\<rparr>)"

text \<open>\<^verbatim>\<open>if (persist) await this.save().catch(() => {});\<close>\<close>

definition persist_save :: "env \<Rightarrow> bool \<Rightarrow> store \<Rightarrow> store \<times> pwrite option" where
  "persist_save e persist s =
     (if persist then (case save_begin e s of (err, s1, wr) \<Rightarrow> (s1, wr)) else (s, None))"

text \<open>
  Each setter gives the value or error of the call, the instance after the synchronous
  part of the call, and the write that the call has started, if any.
  \<^verbatim>\<open>
  async setGlobal(pluginKey, value, { persist = true } = {}) {
    this.globalSettings[pluginKey] = value;
    this._setUpdateTime('global', pluginKey);
    this._dirty = true;
    this.emit('update', { scope: 'global', plugin: pluginKey, value });
    if (persist) await this.save().catch(() => {});
  }
  \<close>
\<close>

definition setGlobal ::
  "env \<Rightarrow> string \<Rightarrow> jval \<Rightarrow> bool \<Rightarrow> store \<Rightarrow> (error + jval) \<times> store \<times> pwrite option" where
  "setGlobal e pluginKey v persist s =
     (let s1 = s\<lparr>globalSettings := jset (globalSettings s) pluginKey v\<rparr>;
          s2 = setUpdateTime e ''global'' pluginKey s1;
          s3 = s2\<lparr>dirty := True\<rparr>;
          s4 = emit (Update Global pluginKey v) s3
      in (Inr JUndefined, persist_save e persist s4))"

text \<open>\<^verbatim>\<open>this.groupSettings.get(jid) || {}\<close>\<close>

definition existing_of :: "store \<Rightarrow> string \<Rightarrow> obj" where
  "existing_of s jid =
     (case fmlookup (groupSettings s) jid of None \<Rightarrow> empty_object | Some g \<Rightarrow> g)"

text \<open>
  \<^verbatim>\<open>
  async setGroupPlugin(jid, pluginName, value, { persist = true } = {}) {
    const existing = this.groupSettings.get(jid) || {};
    existing[pluginName] = value;
    this.groupSettings.set(jid, existing);
    this._setUpdateTime(jid, pluginName);
    this._dirty = true;
    this.emit('update', { scope: 'group', jid, plugin: pluginName, value });
    if (persist) await this.save().catch(() => {});
  }
  \<close>
\<close>

definition setGroupPlugin ::
  "env \<Rightarrow> string \<Rightarrow> string \<Rightarrow> jval \<Rightarrow> bool \<Rightarrow> store \<Rightarrow> (error + jval) \<times> store \<times> pwrite option" where
  "setGroupPlugin e jid pluginName v persist s =
     (let existing = jset (existing_of s jid) pluginName v;
          s1 = s\<lparr>groupSettings := fmupd jid existing (groupSettings s)\<rparr>;
          s2 = setUpdateTime e jid pluginName s1;
          s3 = s2\<lparr>dirty := True\<rparr>;
          s4 = emit (Update (Group jid) pluginName v) s3
      in (Inr JUndefined, persist_save e persist s4))"

text \<open>
  \<^verbatim>\<open>
  async toggleGlobal(pluginKey, { persist = true } = {}) {
    const current = Boolean(this.globalSettings[pluginKey]);
    const next = !current;
    await this.setGlobal(pluginKey, next, { persist });
    return next;
  }
  \<close>
\<close>

definition toggleGlobal ::
  "env \<Rightarrow> string \<Rightarrow> bool \<Rightarrow> store \<Rightarrow> (error + jval) \<times> store \<times> pwrite option" where
  "toggleGlobal e pluginKey persist s =
     (let current = Boolean (jget (globalSettings s) pluginKey);
          next = (\<not> current)
      in (case setGlobal e pluginKey (JBool next) persist s of
            (r, s1, wr) \<Rightarrow> (Inr (JBool next), s1, wr)))"

text \<open>
  \<^verbatim>\<open>
  async toggleGroupPlugin(jid, pluginKey, { persist = true } = {}) {
    const existing = this.groupSettings.get(jid) || {};
    const current = Boolean(existing[pluginKey]);
    const next = !current;
    existing[pluginKey] = next;
    this.groupSettings.set(jid, existing);
    this._setUpdateTime(jid, pluginKey);
    this._dirty = true;
    this.emit('update', { scope: 'group', jid, plugin: pluginKey, value: next });
    if (persist) await this.save().catch(() => {});
    return next;
  }
  \<close>
\<close>

definition toggleGroupPlugin ::
  "env \<Rightarrow> string \<Rightarrow> string \<Rightarrow> bool \<Rightarrow> store \<Rightarrow> (error + jval) \<times> store \<times> pwrite option" where
  "toggleGroupPlugin e jid pluginKey persist s =
     (let existing = existing_of s jid;
          current = Boolean (jget existing pluginKey);
          next = (\<not> current);
          s1 = s\<lparr>groupSettings := fmupd jid (jset existing pluginKey (JBool next)) (groupSettings s)\<rparr>;
          s2 = setUpdateTime e jid pluginKey s1;
          s3 = s2\<lparr>dirty := True\<rparr>;
          s4 = emit (Update (Group jid) pluginKey (JBool next)) s3
      in (Inr (JBool next), persist_save e persist s4))"

text \<open>
  \<^verbatim>\<open>
  async setGroupPluginConfig(jid, pluginName, configObj, { persist = true } = {}) {
    if (typeof configObj !== 'object' || configObj === null) {
      throw new Error('configObj must be an object');
    }
    const existing = this.groupSettings.get(jid) || {};
    const prev = existing[pluginName] || {};
    existing[pluginName] = { ...prev, ...configObj };
    this.groupSettings.set(jid, existing);
    this._setUpdateTime(jid, pluginName);
    this._dirty = true;
    this.emit('update', { scope: 'group', jid, plugin: pluginName, value: existing[pluginName] });
    if (persist) await this.save().catch(() => {});
    return existing[pluginName];
  }
  \<close>
\<close>

definition setGroupPluginConfig ::
  "env \<Rightarrow> string \<Rightarrow> string \<Rightarrow> jval \<Rightarrow> bool \<Rightarrow> store \<Rightarrow> (error + jval) \<times> store \<times> pwrite option" where
  "setGroupPluginConfig e jid pluginName configObj persist s =
     (if typeof configObj \<noteq> TObject \<or> configObj = JNull then (Inl ConfigObjNotObject, s, None)
      else (let existing = existing_of s jid;
                prev = (if Boolean (jget existing pluginName) then jget existing pluginName
                        else JObj JObjectPrototype fmempty);
                merged = JObj JObjectPrototype (own_props prev ++\<^sub>f own_props configObj);
                existing1 = jset existing pluginName merged;
                s1 = s\<lparr>groupSettings := fmupd jid existing1 (groupSettings s)\<rparr>;
                s2 = setUpdateTime e jid pluginName s1;
                s3 = s2\<lparr>dirty := True\<rparr>;
                s4 = emit (Update (Group jid) pluginName (jget existing1 pluginName)) s3
            in (Inr (jget existing1 pluginName), persist_save e persist s4)))"

text \<open>
  \<^verbatim>\<open>
  deleteGroup(jid, { persist = true } = {}) {
    const existed = this.groupSettings.delete(jid);
    this.updateTimes.delete(jid);
    this._dirty = true;
    this.emit('deleteGroup', { jid });
    if (persist) this.save().catch(() => {});
    return existed;
  }
  \<close>
\<close>

definition deleteGroup ::
  "env \<Rightarrow> string \<Rightarrow> bool \<Rightarrow> store \<Rightarrow> (error + jval) \<times> store \<times> pwrite option" where
  "deleteGroup e jid persist s =
     (let existed = (fmlookup (groupSettings s) jid \<noteq> None);
          s1 = s\<lparr>groupSettings := fmdrop jid (groupSettings s)\<rparr>;
          s2 = s1\<lparr>updateTimes := fmdrop jid (updateTimes s1)\<rparr>;
          s3 = s2\<lparr>dirty := True\<rparr>;
          s4 = emit (DeleteGroup jid) s3
      in (Inr (JBool existed), persist_save e persist s4))"

text \<open>
  The generic setter; the first argument is a string, the second any value.
  \<^verbatim>\<open>
  async set(jidOrPlugin, pluginName, value, { persist = true } = {}) {
    if (this._isJid(jidOrPlugin) && typeof pluginName === 'string') {
      return this.setGroupPlugin(jidOrPlugin, pluginName, value, { persist });
    }
    if (typeof pluginName === 'undefined') {
      throw new Error('Invalid arguments. ...');
    }
    return this.setGlobal(jidOrPlugin, pluginName, { persist });
  }
  \<close>
\<close>

definition string_of :: "jval \<Rightarrow> string" where
  "string_of v = (case v of JStr x \<Rightarrow> x | _ \<Rightarrow> [])"

definition set_generic ::
  "env \<Rightarrow> string \<Rightarrow> jval \<Rightarrow> jval \<Rightarrow> bool \<Rightarrow> store \<Rightarrow> (error + jval) \<times> store \<times> pwrite option" where
  "set_generic e jidOrPlugin pluginName v persist s =
     (if isJid jidOrPlugin \<and> typeof pluginName = TString
        then setGroupPlugin e jidOrPlugin (string_of pluginName) v persist s
      else if typeof pluginName = TUndefined then (Inl InvalidArguments, s, None)
      else setGlobal e jidOrPlugin pluginName persist s)"

subsection \<open>The instance in its event loop\<close>

datatype call =
    SetGlobal string jval bool
  | SetGroupPlugin string string jval bool
  | SetGroupPluginConfig string string jval bool
  | ToggleGlobal string bool
  | ToggleGroupPlugin string string bool
  | DeleteGroupCall string bool
  | SetGeneric string jval jval bool

fun apply_call :: "env \<Rightarrow> call \<Rightarrow> store \<Rightarrow> (error + jval) \<times> store \<times> pwrite option" where
  "apply_call e (SetGlobal k v p) s = setGlobal e k v p s"
| "apply_call e (SetGroupPlugin j k v p) s = setGroupPlugin e j k v p s"
| "apply_call e (SetGroupPluginConfig j k c p) s = setGroupPluginConfig e j k c p s"
| "apply_call e (ToggleGlobal k p) s = toggleGlobal e k p s"
| "apply_call e (ToggleGroupPlugin j k p) s = toggleGroupPlugin e j k p s"
| "apply_call e (DeleteGroupCall j p) s = deleteGroup e j p s"
| "apply_call e (SetGeneric k n v p) s = set_generic e k n v p s"

text \<open>
  The instance together with what runs around it: the world, the physical write in
  flight, the number of \<^verbatim>\<open>setImmediate\<close> callbacks waiting, and the physical writes
  started so far, oldest first.
\<close>

record sys =
  db :: store
  disk :: world
  inflight :: "pwrite option"
  immediates :: nat
  started :: "pwrite list"

text \<open>
  What can happen next: a call of a setter, of \<^verbatim>\<open>save\<close>, \<^verbatim>\<open>load\<close>, \<^verbatim>\<open>init\<close> or
  \<^verbatim>\<open>close\<close>; a tick of the autosave timer; a waiting \<^verbatim>\<open>setImmediate\<close> callback;
  the completion of the write in flight.
\<close>

datatype action =
    Call env call
  | SaveCall env
  | LoadCall env
  | InitCall env opts
  | CloseCall env
  | AutoSave env
  | Immediate env
  | WriteDone io_outcome

definition launch :: "pwrite option \<Rightarrow> sys \<Rightarrow> sys" where
  "launch wr st =
     (case wr of None \<Rightarrow> st | Some x \<Rightarrow> st\<lparr>inflight := Some x, started := started st @ [x]\<rparr>)"

definition request_save :: "env \<Rightarrow> sys \<Rightarrow> sys" where
  "request_save e st = (case save_begin e (db st) of (err, s1, wr) \<Rightarrow> launch wr (st\<lparr>db := s1\<rparr>))"

definition loaded :: "bool \<times> store \<times> world \<times> pwrite option \<Rightarrow> sys \<Rightarrow> sys" where
  "loaded r st =
     (case r of (ok, s1, w1, wr) \<Rightarrow>
        st\<lparr>db := s1, disk := w1, started := started st @ (case wr of None \<Rightarrow> [] | Some x \<Rightarrow> [x])\<rparr>)"

text \<open>
  \<^verbatim>\<open>_autoSave\<close> is \<^verbatim>\<open>if (!this._dirty) return; await this.save();\<close> and \<^verbatim>\<open>close\<close>
  clears the timer and awaits \<^verbatim>\<open>save\<close>. A \<^verbatim>\<open>load\<close> runs as one step.
\<close>

fun step :: "action \<Rightarrow> sys \<Rightarrow> sys" where
  "step (Call e c) st = (case apply_call e c (db st) of (r, s1, wr) \<Rightarrow> launch wr (st\<lparr>db := s1\<rparr>))"
| "step (SaveCall e) st = request_save e st"
| "step (LoadCall e) st = loaded (load e (db st) (disk st)) st"
| "step (InitCall e os) st = loaded (load e (init_opts os (db st)) (disk st)) st"
| "step (CloseCall e) st = request_save e (st\<lparr>db := (db st)\<lparr>autosaveTimer := False\<rparr>\<rparr>)"
| "step (AutoSave e) st =
     (if autosaveTimer (db st) \<and> dirty (db st) then request_save e st else st)"
| "step (Immediate e) st =
     (if immediates st = 0 then st else request_save e (st\<lparr>immediates := immediates st - 1\<rparr>))"
| "step (WriteDone res) st =
     (case inflight st of
        None \<Rightarrow> st
      | Some wr \<Rightarrow>
          (case save_finish res wr (db st) (disk st) of
             (err, s1, w1, again) \<Rightarrow>
               st\<lparr>db := s1, disk := w1, inflight := None,
                  immediates := immediates st + (if again then 1 else 0)\<rparr>))"

fun run :: "action list \<Rightarrow> sys \<Rightarrow> sys" where
  "run [] st = st"
| "run (a # as) st = run as (step a st)"

text \<open>A process that has just constructed its instance.\<close>

definition boot :: "env \<Rightarrow> opts \<Rightarrow> world \<Rightarrow> sys" where
  "boot e os w = \<lparr> db = new_SettingsDB e os, disk = w, inflight = None, immediates = 0, started = [] \<rparr>"

subsection \<open>Reading the results\<close>

definition store_after :: "'r \<times> store \<times> 'w \<Rightarrow> store" where
  "store_after r = fst (snd r)"

definition write_of :: "'r \<times> store \<times> pwrite option \<Rightarrow> pwrite option" where
  "write_of r = snd (snd r)"

text \<open>The key of \<open>updateTimes\<close> for a scope, as \<^verbatim>\<open>jidOrGlobal || 'global'\<close> picks it.\<close>

definition scope_token :: "scope \<Rightarrow> string" where
  "scope_token sc = (case sc of Global \<Rightarrow> ''global'' | Group j \<Rightarrow> if j = [] then ''global'' else j)"

text \<open>The object that holds the settings of a scope; a group not yet stored is \<^verbatim>\<open>{}\<close>.\<close>

definition target_of :: "store \<Rightarrow> scope \<Rightarrow> obj" where
  "target_of s sc = (case sc of Global \<Rightarrow> globalSettings s | Group j \<Rightarrow> existing_of s j)"

text \<open>What the code reads at a scope and key, and the own key stored there.\<close>

definition value_at :: "store \<Rightarrow> scope \<Rightarrow> string \<Rightarrow> jval" where
  "value_at s sc k = jget (target_of s sc) k"

definition own_at :: "store \<Rightarrow> scope \<Rightarrow> string \<Rightarrow> jval option" where
  "own_at s sc k = fmlookup (snd (target_of s sc)) k"

definition time_at :: "store \<Rightarrow> scope \<Rightarrow> string \<Rightarrow> string option" where
  "time_at s sc k =
     (case fmlookup (updateTimes s) (scope_token sc) of None \<Rightarrow> None | Some m \<Rightarrow> fmlookup m k)"

text \<open>
  The effects, other than the value, of a write of \<open>v\<close> at \<open>(sc, k)\<close> that takes \<open>s\<close>
  to \<open>s'\<close> at time \<open>now e\<close>: the timestamp of \<open>(sc, k)\<close> is that time and no other
  timestamp changes, the dirty flag is set, the event \<^verbatim>\<open>update\<close> is emitted with \<open>v\<close>,
  and the settings of the other scopes stay as they were.
\<close>

definition updated_at :: "env \<Rightarrow> store \<Rightarrow> store \<Rightarrow> scope \<Rightarrow> string \<Rightarrow> jval \<Rightarrow> bool" where
  "updated_at e s s' sc k v =
     (updateTimes s' =
        fmupd (scope_token sc)
          (fmupd k (now e)
             (case fmlookup (updateTimes s) (scope_token sc) of None \<Rightarrow> fmempty | Some m \<Rightarrow> m))
          (updateTimes s) \<and>
      time_at s' sc k = Some (now e) \<and>
      dirty s' \<and>
      events s' = events s @ [Update sc k v] \<and>
      (case sc of
         Global \<Rightarrow> groupSettings s' = groupSettings s
       | Group j \<Rightarrow>
           globalSettings s' = globalSettings s \<and>
           fmdrop j (groupSettings s') = fmdrop j (groupSettings s)))"

text \<open>
  The value: after the write the object of the scope has the own key \<open>k\<close> with value
  \<open>v\<close>, and its other own keys and its prototype are as before.
\<close>

definition stored_at :: "store \<Rightarrow> store \<Rightarrow> scope \<Rightarrow> string \<Rightarrow> jval \<Rightarrow> bool" where
  "stored_at s s' sc k v =
     (target_of s' sc = (fst (target_of s sc), fmupd k v (snd (target_of s sc))) \<and>
      own_at s' sc k = Some v \<and>
      (case sc of Global \<Rightarrow> True | Group j \<Rightarrow> fmlookup (groupSettings s') j \<noteq> None))"

text \<open>
  The effects of \<^verbatim>\<open>deleteGroup(j)\<close>: what the group settings and the timestamps hold
  under \<open>j\<close> is removed and nothing else in them changes.
\<close>

definition dropped :: "store \<Rightarrow> store \<Rightarrow> string \<Rightarrow> bool" where
  "dropped s s' j =
     (groupSettings s' = fmdrop j (groupSettings s) \<and>
      updateTimes s' = fmdrop j (updateTimes s) \<and>
      globalSettings s' = globalSettings s \<and>
      dirty s' \<and>
      events s' = events s @ [DeleteGroup j])"

text \<open>A call that does not persist starts no write and leaves the save flags alone.\<close>

definition no_save :: "store \<Rightarrow> (error + jval) \<times> store \<times> pwrite option \<Rightarrow> bool" where
  "no_save s r =
     (write_of r = None \<and> saving (store_after r) = saving s \<and>
      pendingSave (store_after r) = pendingSave s)"

definition world_after :: "'r \<times> store \<times> world \<times> 'x \<Rightarrow> world" where
  "world_after r = fst (snd (snd r))"

text \<open>\<^verbatim>\<open>await save()\<close> then \<^verbatim>\<open>await load()\<close>, on the world the save leaves.\<close>

definition save_then_load ::
  "env \<Rightarrow> env \<Rightarrow> store \<Rightarrow> world \<Rightarrow> bool \<times> store \<times> world \<times> pwrite option" where
  "save_then_load e1 e2 s w = (case save_run e1 s w of (err, s1, w1, wr) \<Rightarrow> load e2 s1 w1)"

text \<open>The document \<^verbatim>\<open>{globalSettings:{}, groupSettings:{}, updateTimes:{}}\<close>.\<close>

definition empty_document :: document where
  "empty_document =
     \<lparr> doc_globalSettings = Some fmempty, doc_groupSettings = Some fmempty,
       doc_updateTimes = Some fmempty \<rparr>"

text \<open>
  A sequence of setter calls, each with the environment it runs in; only the
  synchronous parts matter for the instance.
\<close>

fun replay :: "(env \<times> call) list \<Rightarrow> store \<Rightarrow> store" where
  "replay [] s = s"
| "replay (ec # rest) s = replay rest (store_after (apply_call (fst ec) (snd ec) s))"

text \<open>
  The steps that may take the dirty flag from true to false: the success of the write
  in flight, and a \<^verbatim>\<open>load\<close> (alone or inside \<^verbatim>\<open>init\<close>) that returns \<^verbatim>\<open>true\<close>.
\<close>

definition may_clear_dirty :: "action \<Rightarrow> sys \<Rightarrow> bool" where
  "may_clear_dirty a st =
     (case a of
        WriteDone res \<Rightarrow> res = IoOk \<and> inflight st \<noteq> None
      | LoadCall e \<Rightarrow> fst (load e (db st) (disk st))
      | InitCall e os \<Rightarrow> fst (load e (init_opts os (db st)) (disk st))
      | _ \<Rightarrow> False)"

definition document_of :: "pwrite \<Rightarrow> document" where
  "document_of wr = (case wr of LocalWrite tmp d \<Rightarrow> d | RemoteWrite t target d \<Rightarrow> d)"

fun is_update :: "event \<Rightarrow> bool" where
  "is_update (Update sc k v) = True"
| "is_update Saved = False"
| "is_update (DeleteGroup j) = False"

text \<open>The snapshot holds only what JSON can carry.\<close>

definition serializable_store :: "store \<Rightarrow> bool" where
  "serializable_store s =
     (serializable_obj (snd (globalSettings s)) \<and>
      fmpred (\<lambda>j g. serializable_obj (snd g)) (groupSettings s))"

text \<open>The keys of the timestamps, without the times.\<close>

definition stamped ::
  "store \<Rightarrow> (string, (string, unit) fmap) fmap" where
  "stamped s = fmmap (fmmap (\<lambda>t. ())) (updateTimes s)"

text \<open>
  The resolution order in the words of the specification: the group-scope value if
  present, else the global value if present, else the default. A value is what the
  mapping holds under the key, and present means that it is not \<^verbatim>\<open>undefined\<close>.
\<close>

definition own_value :: "props \<Rightarrow> string \<Rightarrow> jval" where
  "own_value m key = (case fmlookup m key of None \<Rightarrow> JUndefined | Some v \<Rightarrow> v)"

definition spec_resolved :: "store \<Rightarrow> string option \<Rightarrow> obj \<Rightarrow> string \<Rightarrow> jval" where
  "spec_resolved s jid defaults key =
     (let g = (case jid of
                 None \<Rightarrow> JUndefined
               | Some j \<Rightarrow>
                   (case fmlookup (groupSettings s) j of
                      None \<Rightarrow> JUndefined
                    | Some cfg \<Rightarrow> own_value (snd cfg) key))
      in if g \<noteq> JUndefined then g
         else if own_value (snd (globalSettings s)) key \<noteq> JUndefined
           then own_value (snd (globalSettings s)) key
         else own_value (snd defaults) key)"

text \<open>
  Whether an object may get the key from its prototype chain; a chain with a function
  in it is taken to give every key.
\<close>

definition inherits :: "obj \<Rightarrow> string \<Rightarrow> bool" where
  "inherits ob key = (find_slot (fst ob) key \<noteq> Absent \<or> \<not> function_free (fst ob))"

definition group_inherits :: "store \<Rightarrow> string option \<Rightarrow> string \<Rightarrow> bool" where
  "group_inherits s jid key =
     (case jid of
        None \<Rightarrow> False
      | Some j \<Rightarrow> (case fmlookup (groupSettings s) j of None \<Rightarrow> False | Some cfg \<Rightarrow> inherits cfg key))"

text \<open>
  The actions that may arrive while a write is in flight: calls of \<^verbatim>\<open>save\<close>, of the
  setters, of \<^verbatim>\<open>close\<close>, and ticks of the timer; those among them that ask for a save
  whatever the state; and the setter calls that are told not to persist.
\<close>

fun persists :: "call \<Rightarrow> bool" where
  "persists (SetGlobal k v p) = p"
| "persists (SetGroupPlugin j k v p) = p"
| "persists (SetGroupPluginConfig j k c p) = p"
| "persists (ToggleGlobal k p) = p"
| "persists (ToggleGroupPlugin j k p) = p"
| "persists (DeleteGroupCall j p) = p"
| "persists (SetGeneric k n v p) = p"

fun arrives_in_flight :: "action \<Rightarrow> bool" where
  "arrives_in_flight (Call e c) = True"
| "arrives_in_flight (SaveCall e) = True"
| "arrives_in_flight (CloseCall e) = True"
| "arrives_in_flight (AutoSave e) = True"
| "arrives_in_flight a = False"

fun is_save :: "action \<Rightarrow> bool" where
  "is_save (SaveCall e) = True"
| "is_save a = False"

fun quiet :: "action \<Rightarrow> bool" where
  "quiet (Call e c) = (\<not> persists c)"
| "quiet a = False"

text \<open>The document of a snapshot, by its three fields.\<close>

definition holds_snapshot :: "document \<Rightarrow> store \<Rightarrow> bool" where
  "holds_snapshot d s =
     (doc_globalSettings d = Some (norm_obj (snd (globalSettings s))) \<and>
      doc_groupSettings d = Some (fmmap (\<lambda>g. norm_obj (snd g)) (groupSettings s)) \<and>
      doc_updateTimes d = Some (fmmap Some (updateTimes s)))"

text \<open>
  The value that \<^verbatim>\<open>setGroupPluginConfig(j, k, c)\<close> builds:
  \<^verbatim>\<open>{ ...(existing[k] || {}), ...c }\<close>.
\<close>

definition merged_config :: "store \<Rightarrow> string \<Rightarrow> string \<Rightarrow> jval \<Rightarrow> jval" where
  "merged_config s j k c =
     JObj JObjectPrototype
       (own_props (if Boolean (value_at s (Group j) k) then value_at s (Group j) k
                   else JObj JObjectPrototype fmempty) ++\<^sub>f own_props c)"

text \<open>The value that a toggle stores and returns.\<close>

definition toggled :: "store \<Rightarrow> scope \<Rightarrow> string \<Rightarrow> jval" where
  "toggled s sc k = JBool (\<not> Boolean (value_at s sc k))"

subsection \<open>Inputs for the examples\<close>

definition env0 :: env where
  "env0 = \<lparr> now = ''2026-01-01T00:00:00.000Z'', now_ms = 5, driver_ok = True, remote_ok = True,
            read_ok = True, copy_ok = True, write_res = IoOk \<rparr>"

definition env1 :: env where
  "env1 = \<lparr> now = ''2026-01-02T00:00:00.000Z'', now_ms = 7, driver_ok = True, remote_ok = True,
            read_ok = True, copy_ok = True, write_res = IoOk \<rparr>"

definition opts0 :: opts where
  "opts0 = \<lparr> opt_file = None, opt_autosaveInterval = None, opt_databaseUrl = None \<rparr>"

definition store0 :: store where
  "store0 = new_SettingsDB env0 opts0"

definition world0 :: world where
  "world0 = \<lparr> fs = fmempty, remote = None \<rparr>"

definition store1 :: store where
  "store1 =
     store0\<lparr> globalSettings := (JNull, fmupd ''autoread'' (JStr ''YeS'') fmempty),
             groupSettings :=
               fmupd ''123@g.us'' (JObjectPrototype, fmupd ''welcome'' (JStr ''hi'') fmempty)
                 fmempty \<rparr>"

definition defaults1 :: obj where
  "defaults1 =
     (JObjectPrototype,
      fmupd ''autoread'' (JBool False) (fmupd ''welcome'' (JStr ''bye'') fmempty))"

definition config1 :: jval where
  "config1 = JObj JObjectPrototype (fmupd ''text'' (JStr ''hi'') fmempty)"

text \<open>The instance after \<^verbatim>\<open>setGroupPlugin('', 'autoread', true, {persist: false})\<close>.\<close>

definition store3 :: store where
  "store3 = store_after (setGroupPlugin env0 [] ''autoread'' (JBool True) False store0)"

definition defaults3 :: obj where
  "defaults3 = (JObjectPrototype, fmupd ''autoread'' (JBool False) fmempty)"

definition sys1 :: sys where
  "sys1 =
     \<lparr> db = store0\<lparr>saving := True\<rparr>, disk = world0,
       inflight = Some (LocalWrite (DEFAULT_FILE @ ''.tmp'') (to_document store0)),
       immediates = 0,
       started = [LocalWrite (DEFAULT_FILE @ ''.tmp'') (to_document store0)] \<rparr>"

text \<open>
  What arrives while the write of \<open>sys1\<close> is in flight, what is called between its
  completion and the callback, and the instance and its document at the callback.
\<close>

definition flight1 :: "action list" where
  "flight1 =
     [SaveCall env0, Call env1 (SetGlobal ''autoread'' (JBool True) True), SaveCall env1,
      AutoSave env1]"

definition after1 :: "action list" where
  "after1 = [Call env1 (SetGroupPlugin ''123@g.us'' ''welcome'' (JStr ''hi'') False)]"

definition document2 :: document where
  "document2 =
     \<lparr> doc_globalSettings = Some (fmupd ''autoread'' (JBool True) fmempty),
       doc_groupSettings = Some (fmupd ''123@g.us'' (fmupd ''welcome'' (JStr ''hi'') fmempty) fmempty),
       doc_updateTimes =
         Some (fmupd ''123@g.us'' (Some (fmupd ''welcome'' (now env1) fmempty))
                (fmupd ''global'' (Some (fmupd ''autoread'' (now env1) fmempty)) fmempty)) \<rparr>"

definition store1a :: store where
  "store1a =
     store0\<lparr> globalSettings := (JNull, fmupd ''autoread'' (JBool True) fmempty),
             groupSettings :=
               fmupd ''123@g.us'' (JObjectPrototype, fmupd ''welcome'' (JStr ''hi'') fmempty) fmempty,
             updateTimes :=
               fmupd ''123@g.us'' (fmupd ''welcome'' (now env1) fmempty)
                 (fmupd ''global'' (fmupd ''autoread'' (now env1) fmempty) fmempty),
             dirty := True,
             events := [Update Global ''autoread'' (JBool True), Saved,
                        Update (Group ''123@g.us'') ''welcome'' (JStr ''hi'')] \<rparr>"

text \<open>The instance after \<^verbatim>\<open>set('owner@bot', 'alice', undefined, {persist: false})\<close>.\<close>

definition store2 :: store where
  "store2 = store_after (set_generic env0 ''owner@bot'' (JStr ''alice'') JUndefined False store0)"

text \<open>Instances configured with a Postgres descriptor and with a Redis descriptor.\<close>

definition store_pg :: store where
  "store_pg = init_opts (opts0\<lparr>opt_databaseUrl := Some ''postgres://db.example/bot''\<rparr>) store0"

definition opts_redis :: opts where
  "opts_redis = opts0\<lparr>opt_databaseUrl := Some ''redis://localhost:6379''\<rparr>"

text \<open>A healthy local file; a corrupt one beside an older backup; a dirty instance.\<close>

definition document1 :: document where
  "document1 =
     \<lparr> doc_globalSettings = Some (fmupd ''autoread'' (JBool True) fmempty),
       doc_groupSettings = Some fmempty, doc_updateTimes = Some fmempty \<rparr>"

definition world1 :: world where
  "world1 = \<lparr> fs = fmupd DEFAULT_FILE (Json document1) fmempty, remote = None \<rparr>"

definition world2 :: world where
  "world2 =
     \<lparr> fs = fmupd DEFAULT_FILE (Garbage ''{ globalSettings: tru'')
              (fmupd (DEFAULT_FILE @ ''.corrupt.5'') (Garbage ''an older backup'') fmempty),
       remote = None \<rparr>"

definition sys2 :: sys where
  "sys2 =
     \<lparr> db = store_after (setGlobal env0 ''autoread'' (JBool False) False store0), disk = world1,
       inflight = None, immediates = 0, started = [] \<rparr>"

text \<open>
  The same two calls at the same clock readings, under different I/O outcomes; the last
  call throws.
\<close>

definition calls_a :: "(env \<times> call) list" where
  "calls_a =
     [(env0, SetGlobal ''autoread'' (JNum 1) True),
      (env1, ToggleGroupPlugin ''123@g.us'' ''welcome'' True),
      (env1, ToggleGlobal ''autoread'' False),
      (env1, SetGroupPluginConfig ''123@g.us'' ''welcome'' JNull True)]"

definition calls_b :: "(env \<times> call) list" where
  "calls_b =
     [(env0\<lparr>driver_ok := False\<rparr>, SetGlobal ''autoread'' (JNum 1) True),
      (env1\<lparr>write_res := WriteFailed\<rparr>, ToggleGroupPlugin ''123@g.us'' ''welcome'' True),
      (env1\<lparr>now_ms := 9\<rparr>, ToggleGlobal ''autoread'' False),
      (env1, SetGroupPluginConfig ''123@g.us'' ''welcome'' JNull True)]"

section \<open>Properties\<close>

subsection \<open>The example inputs\<close>

lemma store0_eq:
  "store0 =
     \<lparr> file_path = DEFAULT_FILE, autosaveInterval = 5000, autosaveTimer = True,
       startupTime = ''2026-01-01T00:00:00.000Z'', databaseUrl = None, useDb = False,
       dbType = None, globalSettings = null_object, groupSettings = fmempty, updateTimes = fmempty,
       dirty = False, saving = False, pendingSave = False, events = [] \<rparr>"
  by (simp add: store0_def new_SettingsDB_def opts0_def truthy_str_def env0_def Let_def)

lemma slot_examples:
  "object_prototype_slot ''autoread'' = Absent"
  "object_prototype_slot ''welcome'' = Absent"
  "object_prototype_slot ''constructor'' = Data (JFun ''Object.prototype.constructor'')"
  "object_prototype_slot ''__proto__'' = ProtoAccessor"
  by (simp_all add: object_prototype_slot_def Object_prototype_names_def)

subsection \<open>What saving leaves alone\<close>

lemma initClients_fields:
  "initClientsIfNeeded e s = (err, s1) \<Longrightarrow>
     globalSettings s1 = globalSettings s \<and> groupSettings s1 = groupSettings s \<and>
     updateTimes s1 = updateTimes s \<and> dirty s1 = dirty s \<and> events s1 = events s \<and>
     saving s1 = saving s \<and> pendingSave s1 = pendingSave s \<and> file_path s1 = file_path s \<and>
     useDb s1 = useDb s \<and> databaseUrl s1 = databaseUrl s"
  by (auto simp: initClientsIfNeeded_def initDbClients_def Let_def split: if_splits option.splits)

lemma save_begin_fields:
  "save_begin e s = (err, s1, wr) \<Longrightarrow>
     globalSettings s1 = globalSettings s \<and> groupSettings s1 = groupSettings s \<and>
     updateTimes s1 = updateTimes s \<and> dirty s1 = dirty s \<and> events s1 = events s"
  by (auto simp: save_begin_def Let_def split: if_splits option.splits prod.splits
      dest!: initClients_fields)

lemma persist_save_fields:
  "globalSettings (fst (persist_save e p s)) = globalSettings s"
  "groupSettings (fst (persist_save e p s)) = groupSettings s"
  "updateTimes (fst (persist_save e p s)) = updateTimes s"
  "dirty (fst (persist_save e p s)) = dirty s"
  "events (fst (persist_save e p s)) = events s"
  by (auto simp: persist_save_def split: prod.splits dest!: save_begin_fields)

lemma persist_save_False: "persist_save e False s = (s, None)"
  by (simp add: persist_save_def)

lemma save_begin_saving:
  "saving s \<Longrightarrow> save_begin e s = (None, s\<lparr>pendingSave := True\<rparr>, None)"
  by (simp add: save_begin_def)

lemma save_begin_idle:
  "\<not> saving s \<Longrightarrow> useDb s \<longrightarrow> dbType s \<noteq> None \<Longrightarrow>
   \<exists>wr. save_begin e s = (None, s\<lparr>saving := True, pendingSave := False\<rparr>, Some wr) \<and>
        document_of wr = to_document s"
  by (auto simp: save_begin_def initClientsIfNeeded_def Let_def document_of_def to_document_def)

lemma save_success_eq:
  "save_success s w =
     (None, s\<lparr>dirty := False, saving := False, pendingSave := False, events := events s @ [Saved]\<rparr>,
      w, pendingSave s)"
  by (simp add: save_success_def emit_def Let_def)

lemma save_finish_ok:
  "save_finish IoOk wr s w =
     (None, s\<lparr>dirty := False, saving := False, pendingSave := False, events := events s @ [Saved]\<rparr>,
      write_effect IoOk wr s w, pendingSave s)"
  by (simp add: save_finish_def save_success_eq)

lemma persist_save_in_flight:
  "saving s \<Longrightarrow> persist_save e p s = (if p then s\<lparr>pendingSave := True\<rparr> else s, None)"
  by (simp add: persist_save_def save_begin_saving)

subsection \<open>Reading and writing a property\<close>

lemma object_prototype_slot_accessor:
  "object_prototype_slot k = ProtoAccessor \<Longrightarrow> k = ''__proto__''"
  by (simp add: object_prototype_slot_def split: if_splits)

lemma find_slot_accessor: "find_slot p k = ProtoAccessor \<Longrightarrow> k = ''__proto__''"
  by (induction p) (auto dest: object_prototype_slot_accessor split: option.splits if_splits)

lemma jset_own: "k \<noteq> ''__proto__'' \<Longrightarrow> jset ob k v = (fst ob, fmupd k v (snd ob))"
  using find_slot_accessor [of "fst ob" k]
  by (auto simp: jset_def split: option.splits slot.splits)

lemma jset_other: "k \<noteq> k' \<Longrightarrow> fmlookup (snd (jset ob k' v)) k = fmlookup (snd ob) k"
  by (auto simp: jset_def split: option.splits slot.splits)

lemma jget_own_key: "fmlookup (snd ob) k = Some v \<Longrightarrow> jget ob k = v"
  by (simp add: jget_def)

lemma jget_not_inherited: "\<not> inherits ob k \<Longrightarrow> jget ob k = own_value (snd ob) k"
  by (simp add: jget_def inherits_def own_value_def split: option.splits)

lemma foldl_jset_lookup:
  "k \<noteq> ''__proto__'' \<Longrightarrow>
   fmlookup (snd (foldl (\<lambda>out key. jset out key (f key)) ob keys)) k =
     (if k \<in> set keys then Some (f k) else fmlookup (snd ob) k)"
proof (induction keys arbitrary: ob)
  case Nil
  then show ?case by simp
next
  case (Cons a keys)
  show ?case
  proof (cases "a = k")
    case True
    with Cons show ?thesis by (simp add: jset_own)
  next
    case False
    with Cons show ?thesis by (simp add: jset_other)
  qed
qed

lemma getMultiple_at:
  "key \<in> set keys \<Longrightarrow> key \<noteq> ''__proto__'' \<Longrightarrow>
     fmlookup (snd (getMultiple s jid keys defaults)) key =
       Some (resolve s (groupCfg_of s jid) defaults key)"
  by (simp add: getMultiple_def foldl_jset_lookup Let_def)

lemma resolve_spec:
  assumes "jid \<noteq> Some []" and "\<not> group_inherits s jid key"
    and "\<not> inherits (globalSettings s) key" and "\<not> inherits defaults key"
  shows "resolve s (groupCfg_of s jid) defaults key =
     (if typeof (own_value (snd defaults) key) = TBoolean
      then JBool (toBool (spec_resolved s jid defaults key))
      else spec_resolved s jid defaults key)"
  using assms
  by (auto simp: resolve_def spec_resolved_def groupCfg_of_def group_inherits_def Let_def
      jget_not_inherited split: option.splits)

subsection \<open>Reading several settings\<close>

lemma toBool_truth_strings:
  "toLowerCase x \<in> set [''true'', ''1'', ''yes'', ''on''] \<Longrightarrow> toBool (JStr x)"
  by (simp add: toBool_def)

text \<open>
  Claim C2, as the code has it. Take a scope that is null or a non-empty identifier, a
  key of the list other than \<^verbatim>\<open>__proto__\<close>, and let neither the settings of the group,
  the global settings nor the defaults object inherit the key from a prototype. Then the
  result of \<^verbatim>\<open>getMultiple\<close> has the key as an own key, and its value is the
  group-scope value if present, else the global value if present, else the default
  (\<open>spec_resolved\<close>, which reads the three mappings directly); where the default is a
  boolean it is the boolean that \<^verbatim>\<open>toBool\<close> makes of that value, which is \<^verbatim>\<open>true\<close>
  for the strings \<^verbatim>\<open>"true"\<close>, \<^verbatim>\<open>"1"\<close>, \<^verbatim>\<open>"yes"\<close>, \<^verbatim>\<open>"on"\<close> in any letter case.
\<close>

theorem getMultiple_resolves:
  assumes "key \<in> set keys" and "key \<noteq> ''__proto__''" and "jid \<noteq> Some []"
    and "\<not> group_inherits s jid key" and "\<not> inherits (globalSettings s) key"
    and "\<not> inherits defaults key"
  shows "(typeof (own_value (snd defaults) key) \<noteq> TBoolean \<longrightarrow>
            fmlookup (snd (getMultiple s jid keys defaults)) key =
              Some (spec_resolved s jid defaults key)) \<and>
         (typeof (own_value (snd defaults) key) = TBoolean \<longrightarrow>
            fmlookup (snd (getMultiple s jid keys defaults)) key =
              Some (JBool (toBool (spec_resolved s jid defaults key)))) \<and>
         (typeof (own_value (snd defaults) key) = TBoolean \<and>
          spec_resolved s jid defaults key = JStr x \<and>
          toLowerCase x \<in> set [''true'', ''1'', ''yes'', ''on''] \<longrightarrow>
            fmlookup (snd (getMultiple s jid keys defaults)) key = Some (JBool True))"
  using assms toBool_truth_strings [of x]
  by (simp add: getMultiple_at resolve_spec)

theorem getMultiple_resolves_witness:
  "spec_resolved store1 (Some ''123@g.us'') defaults1 ''welcome'' = JStr ''hi'' \<and>
   spec_resolved store1 (Some ''123@g.us'') defaults1 ''autoread'' = JStr ''YeS'' \<and>
   toLowerCase ''YeS'' = ''yes'' \<and>
   getMultiple store1 (Some ''123@g.us'') [''autoread'', ''welcome''] defaults1 =
     (JObjectPrototype, fmupd ''welcome'' (JStr ''hi'') (fmupd ''autoread'' (JBool True) fmempty)) \<and>
   fmlookup (snd (getMultiple store1 (Some ''123@g.us'') [''autoread'', ''welcome''] defaults1))
     ''welcome'' = Some (JStr ''hi'') \<and>
   fmlookup (snd (getMultiple store1 (Some ''123@g.us'') [''autoread'', ''welcome''] defaults1))
     ''autoread'' = Some (JBool True)"
proof -
  have low: "toLowerCase ''YeS'' = ''yes''"
    by code_simp
  have tb: "toBool (JStr ''YeS'')"
    by code_simp
  have res: "spec_resolved store1 (Some ''123@g.us'') defaults1 ''autoread'' = JStr ''YeS''"
    "spec_resolved store1 (Some ''123@g.us'') defaults1 ''welcome'' = JStr ''hi''"
    by (simp_all add: spec_resolved_def store1_def own_value_def defaults1_def)
  have ty: "typeof (own_value (snd defaults1) ''autoread'') = TBoolean"
    "typeof (own_value (snd defaults1) ''welcome'') \<noteq> TBoolean"
    by (simp_all add: own_value_def defaults1_def)
  have inh: "\<not> group_inherits store1 (Some ''123@g.us'') ''autoread''"
    "\<not> group_inherits store1 (Some ''123@g.us'') ''welcome''"
    "\<not> inherits (globalSettings store1) ''autoread''"
    "\<not> inherits (globalSettings store1) ''welcome''"
    "\<not> inherits defaults1 ''autoread''" "\<not> inherits defaults1 ''welcome''"
    by (simp_all add: group_inherits_def inherits_def store1_def defaults1_def slot_examples)
  have all: "getMultiple store1 (Some ''123@g.us'') [''autoread'', ''welcome''] defaults1 =
     (JObjectPrototype, fmupd ''welcome'' (JStr ''hi'') (fmupd ''autoread'' (JBool True) fmempty))"
    using tb
    by (simp add: getMultiple_def groupCfg_of_def resolve_def jget_def jset_def store1_def
        defaults1_def empty_object_def slot_examples Let_def)
  show ?thesis
    using getMultiple_resolves [of "''autoread''" "[''autoread'', ''welcome'']"
        "Some ''123@g.us''" store1 defaults1 "''YeS''"]
      getMultiple_resolves [of "''welcome''" "[''autoread'', ''welcome'']"
        "Some ''123@g.us''" store1 defaults1 "''YeS''"]
      low res ty inh all
    by simp
qed

text \<open>
  Claim C2 as stated fails in three places. For the empty scope the settings stored
  under it are skipped: with \<^verbatim>\<open>autoread\<close> set to \<^verbatim>\<open>true\<close> for the group \<^verbatim>\<open>''\<close> and
  the default \<^verbatim>\<open>false\<close>, the result is \<^verbatim>\<open>false\<close>. For the key \<^verbatim>\<open>constructor\<close>,
  set nowhere, the result is the function that the group's settings inherit. For the
  key \<^verbatim>\<open>__proto__\<close> the result has no such key.
\<close>

theorem getMultiple_skips_empty_scope_and_reads_inherited:
  "fmlookup (groupSettings store3) [] = Some (JObjectPrototype, fmupd ''autoread'' (JBool True) fmempty) \<and>
   spec_resolved store3 (Some []) defaults3 ''autoread'' = JBool True \<and>
   fmlookup (snd (getMultiple store3 (Some []) [''autoread''] defaults3)) ''autoread'' =
     Some (JBool False) \<and>
   spec_resolved store1 (Some ''123@g.us'') empty_object ''constructor'' = JUndefined \<and>
   fmlookup (snd (getMultiple store1 (Some ''123@g.us'') [''constructor''] empty_object))
     ''constructor'' = Some (JFun ''Object.prototype.constructor'') \<and>
   spec_resolved store1 None defaults3 ''__proto__'' = JUndefined \<and>
   fmlookup (snd (getMultiple store1 None [''__proto__''] defaults3)) ''__proto__'' = None"
proof -
  have s3: "store3 = store0\<lparr> groupSettings :=
        fmupd [] (JObjectPrototype, fmupd ''autoread'' (JBool True) fmempty) fmempty,
      updateTimes := fmupd ''global'' (fmupd ''autoread'' (now env0) fmempty) fmempty,
      dirty := True, events := [Update (Group []) ''autoread'' (JBool True)] \<rparr>"
    by (simp add: store3_def setGroupPlugin_def store_after_def persist_save_def Let_def
        emit_def setUpdateTime_def existing_of_def empty_object_def jset_def slot_examples
        store0_def new_SettingsDB_def)
  have tb: "\<not> toBool (JBool False)"
    by (simp add: toBool_def)
  show ?thesis
    using tb
    by (simp add: s3 spec_resolved_def own_value_def defaults3_def getMultiple_def
        groupCfg_of_def resolve_def jget_def jset_def empty_object_def slot_examples Let_def
        store1_def store0_def new_SettingsDB_def null_object_def)
qed

subsection \<open>The setters\<close>

lemmas effect_defs = updated_at_def store_after_def time_at_def scope_token_def emit_def
  setUpdateTime_def Let_def persist_save_fields fmdrop_fmupd_same

lemma setGlobal_updated: "updated_at e s (store_after (setGlobal e k v p s)) Global k v"
  by (simp add: setGlobal_def effect_defs)

lemma setGroupPlugin_updated:
  "updated_at e s (store_after (setGroupPlugin e j k v p s)) (Group j) k v"
  by (simp add: setGroupPlugin_def effect_defs)

lemma toggleGlobal_updated:
  "fst (toggleGlobal e k p s) = Inr (toggled s Global k) \<and>
   updated_at e s (store_after (toggleGlobal e k p s)) Global k (toggled s Global k)"
  by (simp add: toggleGlobal_def setGlobal_def toggled_def value_at_def target_of_def effect_defs
      split: prod.splits)

lemma toggleGroupPlugin_updated:
  "fst (toggleGroupPlugin e j k p s) = Inr (toggled s (Group j) k) \<and>
   updated_at e s (store_after (toggleGroupPlugin e j k p s)) (Group j) k (toggled s (Group j) k)"
  by (simp add: toggleGroupPlugin_def toggled_def value_at_def target_of_def effect_defs)

lemma setGroupPluginConfig_updated:
  "typeof c = TObject \<Longrightarrow> c \<noteq> JNull \<Longrightarrow>
   fst (setGroupPluginConfig e j k c p s) =
     Inr (value_at (store_after (setGroupPluginConfig e j k c p s)) (Group j) k) \<and>
   updated_at e s (store_after (setGroupPluginConfig e j k c p s)) (Group j) k
     (value_at (store_after (setGroupPluginConfig e j k c p s)) (Group j) k)"
  by (simp add: setGroupPluginConfig_def value_at_def target_of_def existing_of_def effect_defs)

lemma setGlobal_stored:
  "k \<noteq> ''__proto__'' \<Longrightarrow> stored_at s (store_after (setGlobal e k v p s)) Global k v"
  by (simp add: setGlobal_def stored_at_def target_of_def own_at_def jset_own effect_defs)

lemma setGroupPlugin_stored:
  "k \<noteq> ''__proto__'' \<Longrightarrow> stored_at s (store_after (setGroupPlugin e j k v p s)) (Group j) k v"
  by (simp add: setGroupPlugin_def stored_at_def target_of_def own_at_def jset_own existing_of_def
      effect_defs)

lemma toggleGlobal_stored:
  "k \<noteq> ''__proto__'' \<Longrightarrow>
   stored_at s (store_after (toggleGlobal e k p s)) Global k (toggled s Global k)"
  by (simp add: toggleGlobal_def setGlobal_def stored_at_def target_of_def own_at_def jset_own
      toggled_def value_at_def effect_defs split: prod.splits)

lemma toggleGroupPlugin_stored:
  "k \<noteq> ''__proto__'' \<Longrightarrow>
   stored_at s (store_after (toggleGroupPlugin e j k p s)) (Group j) k (toggled s (Group j) k)"
  by (simp add: toggleGroupPlugin_def stored_at_def target_of_def own_at_def jset_own
      existing_of_def toggled_def value_at_def effect_defs)

lemma setGroupPluginConfig_stored:
  "typeof c = TObject \<Longrightarrow> c \<noteq> JNull \<Longrightarrow> k \<noteq> ''__proto__'' \<Longrightarrow>
   stored_at s (store_after (setGroupPluginConfig e j k c p s)) (Group j) k (merged_config s j k c)"
  by (simp add: setGroupPluginConfig_def stored_at_def target_of_def own_at_def jset_own
      existing_of_def merged_config_def value_at_def effect_defs)

lemma setGroupPluginConfig_throws:
  "typeof c \<noteq> TObject \<or> c = JNull \<Longrightarrow>
   setGroupPluginConfig e j k c p s = (Inl ConfigObjNotObject, s, None)"
  by (auto simp add: setGroupPluginConfig_def)

lemma deleteGroup_dropped:
  "fst (deleteGroup e j p s) = Inr (JBool (fmlookup (groupSettings s) j \<noteq> None)) \<and>
   dropped s (store_after (deleteGroup e j p s)) j"
  by (simp add: deleteGroup_def dropped_def effect_defs)

lemma no_save_setters:
  "no_save s (setGlobal e k v False s)"
  "no_save s (setGroupPlugin e j k v False s)"
  "no_save s (toggleGlobal e k False s)"
  "no_save s (toggleGroupPlugin e j k False s)"
  "no_save s (setGroupPluginConfig e j k c False s)"
  "no_save s (deleteGroup e j False s)"
  by (simp_all add: no_save_def write_of_def store_after_def persist_save_False setGlobal_def
      setGroupPlugin_def toggleGlobal_def toggleGroupPlugin_def setGroupPluginConfig_def
      deleteGroup_def Let_def emit_def setUpdateTime_def)

text \<open>
  Claim C1, as the code has it. Let the settings written to have no function in their
  prototype chain. Each of \<^verbatim>\<open>setGlobal\<close>, \<^verbatim>\<open>setGroupPlugin\<close>,
  \<^verbatim>\<open>toggleGlobal\<close>, \<^verbatim>\<open>toggleGroupPlugin\<close> and, for a configuration that is an object,
  \<^verbatim>\<open>setGroupPluginConfig\<close> stamps its scope and key with the time of the call and
  changes no other timestamp, sets the dirty flag, emits an \<^verbatim>\<open>update\<close> event with the
  value and leaves the settings of every other scope as they were, all in the synchronous
  part of the call. For a key other than \<^verbatim>\<open>__proto__\<close> the value becomes an own key of
  the settings of the scope, whose other keys stay. A toggle stores and returns the
  negation of what a read of the key gives, inherited members included;
  \<^verbatim>\<open>setGroupPluginConfig\<close> stores the old value merged with the configuration and returns
  what a read of the key then gives. \<^verbatim>\<open>deleteGroup(j)\<close> removes what the group settings
  and the timestamps hold under \<open>j\<close> and nothing else, tells whether the group existed,
  sets the dirty flag and emits a \<^verbatim>\<open>deleteGroup\<close> event. Called with
  \<^verbatim>\<open>persist: false\<close>, none of the six starts a write or touches the save flags.
\<close>

theorem mutation_effects:
  assumes "typeof c = TObject" and "c \<noteq> JNull"
  shows "(function_free (fst (globalSettings s)) \<longrightarrow>
            updated_at e s (store_after (setGlobal e k v p s)) Global k v \<and>
            fst (toggleGlobal e k p s) = Inr (toggled s Global k) \<and>
            updated_at e s (store_after (toggleGlobal e k p s)) Global k (toggled s Global k) \<and>
            (k \<noteq> ''__proto__'' \<longrightarrow>
               stored_at s (store_after (setGlobal e k v p s)) Global k v \<and>
               stored_at s (store_after (toggleGlobal e k p s)) Global k (toggled s Global k))) \<and>
         (function_free (fst (existing_of s j)) \<longrightarrow>
            updated_at e s (store_after (setGroupPlugin e j k v p s)) (Group j) k v \<and>
            fst (toggleGroupPlugin e j k p s) = Inr (toggled s (Group j) k) \<and>
            updated_at e s (store_after (toggleGroupPlugin e j k p s)) (Group j) k
              (toggled s (Group j) k) \<and>
            fst (setGroupPluginConfig e j k c p s) =
              Inr (value_at (store_after (setGroupPluginConfig e j k c p s)) (Group j) k) \<and>
            updated_at e s (store_after (setGroupPluginConfig e j k c p s)) (Group j) k
              (value_at (store_after (setGroupPluginConfig e j k c p s)) (Group j) k) \<and>
            (k \<noteq> ''__proto__'' \<longrightarrow>
               stored_at s (store_after (setGroupPlugin e j k v p s)) (Group j) k v \<and>
               stored_at s (store_after (toggleGroupPlugin e j k p s)) (Group j) k
                 (toggled s (Group j) k) \<and>
               stored_at s (store_after (setGroupPluginConfig e j k c p s)) (Group j) k
                 (merged_config s j k c))) \<and>
         fst (deleteGroup e j p s) = Inr (JBool (fmlookup (groupSettings s) j \<noteq> None)) \<and>
         dropped s (store_after (deleteGroup e j p s)) j \<and>
         no_save s (setGlobal e k v False s) \<and>
         no_save s (setGroupPlugin e j k v False s) \<and>
         no_save s (toggleGlobal e k False s) \<and>
         no_save s (toggleGroupPlugin e j k False s) \<and>
         no_save s (setGroupPluginConfig e j k c False s) \<and>
         no_save s (deleteGroup e j False s)"
proof -
  note cfg = setGroupPluginConfig_updated [OF assms, of e j k p s]
  have st: "k \<noteq> ''__proto__'' \<longrightarrow>
      stored_at s (store_after (setGroupPluginConfig e j k c p s)) (Group j) k
        (merged_config s j k c)"
    using setGroupPluginConfig_stored [OF assms, of k s e j p] by simp
  show ?thesis
    using cfg st
    by (simp add: setGlobal_updated setGroupPlugin_updated toggleGlobal_updated
        toggleGroupPlugin_updated deleteGroup_dropped no_save_setters setGlobal_stored
        setGroupPlugin_stored toggleGlobal_stored toggleGroupPlugin_stored)
qed

theorem mutation_effects_witness:
  "typeof config1 = TObject \<and> config1 \<noteq> JNull \<and>
   function_free (fst (globalSettings store1)) \<and>
   function_free (fst (existing_of store1 ''123@g.us'')) \<and>
   ''welcome'' \<noteq> ''__proto__'' \<and> ''constructor'' \<noteq> ''__proto__'' \<and>
   merged_config store1 ''123@g.us'' ''welcome'' config1 =
     JObj JObjectPrototype
       (fmupd ''text'' (JStr ''hi'') (fmupd ''0'' (JStr ''h'') (fmupd ''1'' (JStr ''i'') fmempty))) \<and>
   stored_at store1
     (store_after (setGroupPluginConfig env0 ''123@g.us'' ''welcome'' config1 True store1))
     (Group ''123@g.us'') ''welcome''
     (JObj JObjectPrototype
       (fmupd ''text'' (JStr ''hi'') (fmupd ''0'' (JStr ''h'') (fmupd ''1'' (JStr ''i'') fmempty)))) \<and>
   updated_at env0 store1
     (store_after (setGroupPluginConfig env0 ''123@g.us'' ''welcome'' config1 True store1))
     (Group ''123@g.us'') ''welcome''
     (JObj JObjectPrototype
       (fmupd ''text'' (JStr ''hi'') (fmupd ''0'' (JStr ''h'') (fmupd ''1'' (JStr ''i'') fmempty)))) \<and>
   stored_at store1 (store_after (toggleGlobal env0 ''welcome'' True store1))
     Global ''welcome'' (JBool True) \<and>
   updated_at env0 store1 (store_after (toggleGlobal env0 ''welcome'' True store1))
     Global ''welcome'' (JBool True) \<and>
   fst (toggleGroupPlugin env0 ''123@g.us'' ''constructor'' True store1) = Inr (JBool False) \<and>
   stored_at store1 (store_after (toggleGroupPlugin env0 ''123@g.us'' ''constructor'' True store1))
     (Group ''123@g.us'') ''constructor'' (JBool False) \<and>
   dropped store1 (store_after (deleteGroup env0 ''123@g.us'' True store1)) ''123@g.us''"
proof -
  have ty: "typeof config1 = TObject" "config1 \<noteq> JNull"
    by (simp_all add: config1_def)
  have ff: "function_free (fst (globalSettings store1))"
    "function_free (fst (existing_of store1 ''123@g.us''))"
    by (simp_all add: store1_def existing_of_def)
  have prev: "value_at store1 (Group ''123@g.us'') ''welcome'' = JStr ''hi''"
    by (simp add: value_at_def target_of_def existing_of_def store1_def jget_def)
  have idx: "show_nat 0 = ''0''" "show_nat (Suc 0) = ''1''"
    by code_simp+
  have props: "own_props (JStr ''hi'') ++\<^sub>f own_props config1 =
      fmupd ''text'' (JStr ''hi'') (fmupd ''0'' (JStr ''h'') (fmupd ''1'' (JStr ''i'') fmempty))"
    by (rule fmap_ext) (auto simp: own_props_def config1_def idx upt_rec)
  have merged: "merged_config store1 ''123@g.us'' ''welcome'' config1 =
     JObj JObjectPrototype
       (fmupd ''text'' (JStr ''hi'') (fmupd ''0'' (JStr ''h'') (fmupd ''1'' (JStr ''i'') fmempty)))"
    by (simp add: merged_config_def prev props)
  have after: "value_at (store_after (setGroupPluginConfig env0 ''123@g.us'' ''welcome'' config1
        True store1)) (Group ''123@g.us'') ''welcome'' =
     JObj JObjectPrototype
       (fmupd ''text'' (JStr ''hi'') (fmupd ''0'' (JStr ''h'') (fmupd ''1'' (JStr ''i'') fmempty)))"
    using setGroupPluginConfig_stored [OF ty, of "''welcome''" store1 env0 "''123@g.us''" True]
      merged
    by (simp add: stored_at_def own_at_def value_at_def jget_own_key)
  have tg: "toggled store1 Global ''welcome'' = JBool True"
    by (simp add: toggled_def value_at_def target_of_def store1_def jget_def)
  have tc: "toggled store1 (Group ''123@g.us'') ''constructor'' = JBool False"
    by (simp add: toggled_def value_at_def target_of_def existing_of_def store1_def jget_def
        slot_examples)
  show ?thesis
    using mutation_effects [OF ty, of store1 env0 "''welcome''" "JBool True" True "''123@g.us''"]
      mutation_effects [OF ty, of store1 env0 "''constructor''" "JBool True" True "''123@g.us''"]
      ty ff merged after tg tc
    by simp
qed

text \<open>
  Claim C1 as stated fails at \<^verbatim>\<open>deleteGroup\<close>: the only event it emits is
  \<^verbatim>\<open>deleteGroup\<close>, not \<^verbatim>\<open>update\<close>. And a write at the key \<^verbatim>\<open>__proto__\<close> of a value
  that is no object leaves the settings as they were.
\<close>

theorem deleteGroup_emits_no_update:
  "events (store_after (deleteGroup env0 ''123@g.us'' False store1)) = [DeleteGroup ''123@g.us''] \<and>
   \<not> list_ex is_update (events (store_after (deleteGroup env0 ''123@g.us'' False store1))) \<and>
   groupSettings (store_after (setGroupPlugin env0 ''123@g.us'' ''__proto__'' (JStr ''on'') False store1)) =
     groupSettings store1"
  by (simp add: deleteGroup_def setGroupPlugin_def store_after_def Let_def emit_def
      persist_save_False store1_def store0_eq setUpdateTime_def existing_of_def jset_def
      slot_examples)

text \<open>
  Claim C10, as the code has it. For every string \<open>k\<close> that contains \<^verbatim>\<open>@\<close> and every
  string \<open>v\<close>, the two-argument call \<^verbatim>\<open>set(k, v)\<close> is the call
  \<^verbatim>\<open>setGroupPlugin(k, v, undefined)\<close> and the global settings stay as they were.
  Where the settings of the group \<open>k\<close> have no function in their prototype chain, it
  raises no error, and for \<open>v\<close> other than \<^verbatim>\<open>__proto__\<close> the group gets the own key
  \<open>v\<close> with the value \<^verbatim>\<open>undefined\<close>. Whatever the third argument, \<^verbatim>\<open>set\<close> with such
  a \<open>k\<close> and a string never writes a global setting.
\<close>

theorem set_with_at_goes_to_group:
  assumes "CHR ''@'' \<in> set k"
  shows "set_generic e k (JStr v) JUndefined p s = setGroupPlugin e k v JUndefined p s \<and>
         (function_free (fst (existing_of s k)) \<longrightarrow>
            fst (set_generic e k (JStr v) JUndefined p s) = Inr JUndefined \<and>
            (v \<noteq> ''__proto__'' \<longrightarrow>
               stored_at s (store_after (set_generic e k (JStr v) JUndefined p s)) (Group k) v
                 JUndefined)) \<and>
         globalSettings (store_after (set_generic e k (JStr v) x p s)) = globalSettings s"
proof -
  have eq: "set_generic e k (JStr v) y p s = setGroupPlugin e k v y p s" for y
    using assms by (simp add: set_generic_def isJid_def string_of_def)
  have r: "fst (setGroupPlugin e k v JUndefined p s) = Inr JUndefined"
    by (simp add: setGroupPlugin_def Let_def)
  have g: "globalSettings (store_after (setGroupPlugin e k v x p s)) = globalSettings s"
    by (simp add: setGroupPlugin_def effect_defs)
  show ?thesis
    by (simp add: eq r g setGroupPlugin_stored)
qed

theorem set_with_at_goes_to_group_witness:
  "CHR ''@'' \<in> set ''owner@bot'' \<and> ''alice'' \<noteq> ''__proto__'' \<and>
   function_free (fst (existing_of store0 ''owner@bot'')) \<and>
   fst (set_generic env0 ''owner@bot'' (JStr ''alice'') JUndefined True store0) = Inr JUndefined \<and>
   stored_at store0
     (store_after (set_generic env0 ''owner@bot'' (JStr ''alice'') JUndefined True store0))
     (Group ''owner@bot'') ''alice'' JUndefined \<and>
   groupSettings (store_after (set_generic env0 ''owner@bot'' (JStr ''alice'') JUndefined True store0)) =
     fmupd ''owner@bot'' (JObjectPrototype, fmupd ''alice'' JUndefined fmempty) fmempty \<and>
   globalSettings (store_after (set_generic env0 ''owner@bot'' (JStr ''alice'') JUndefined True store0)) =
     null_object"
proof -
  have at: "CHR ''@'' \<in> set ''owner@bot''"
    by simp
  have grp: "groupSettings (store_after (setGroupPlugin env0 ''owner@bot'' ''alice'' JUndefined True store0)) =
     fmupd ''owner@bot'' (JObjectPrototype, fmupd ''alice'' JUndefined fmempty) fmempty"
    by (simp add: setGroupPlugin_def effect_defs store0_eq existing_of_def empty_object_def
        jset_own)
  have glob: "globalSettings store0 = null_object"
    by (simp add: store0_eq)
  have ff: "function_free (fst (existing_of store0 ''owner@bot''))"
    by (simp add: existing_of_def store0_eq empty_object_def)
  show ?thesis
    using set_with_at_goes_to_group [OF at, of env0 "''alice''" True store0 JUndefined] at grp glob ff
    by clarsimp
qed

text \<open>
  Claim C10 as stated fails for \<open>v\<close> the string \<^verbatim>\<open>__proto__\<close>: the write meets the
  accessor of \<^verbatim>\<open>Object.prototype\<close>, whose setter ignores \<^verbatim>\<open>undefined\<close>, so nothing is
  stored under the key and a read of it gives the prototype.
\<close>

theorem set_with_at_stores_nothing_at_proto:
  "CHR ''@'' \<in> set ''owner@bot'' \<and>
   fst (set_generic env0 ''owner@bot'' (JStr ''__proto__'') JUndefined False store0) =
     Inr JUndefined \<and>
   groupSettings (store_after (set_generic env0 ''owner@bot'' (JStr ''__proto__'') JUndefined False
      store0)) = fmupd ''owner@bot'' empty_object fmempty \<and>
   own_at (store_after (set_generic env0 ''owner@bot'' (JStr ''__proto__'') JUndefined False store0))
     (Group ''owner@bot'') ''__proto__'' = None \<and>
   value_at (store_after (set_generic env0 ''owner@bot'' (JStr ''__proto__'') JUndefined False store0))
     (Group ''owner@bot'') ''__proto__'' = JObjectPrototype"
  by (simp add: set_generic_def isJid_def string_of_def setGroupPlugin_def store_after_def Let_def
      emit_def persist_save_False store0_eq setUpdateTime_def existing_of_def jset_def jget_def
      slot_examples empty_object_def own_at_def value_at_def target_of_def)

subsection \<open>Single-flight saving\<close>

lemmas setter_defs = setGlobal_def setGroupPlugin_def toggleGlobal_def toggleGroupPlugin_def
  setGroupPluginConfig_def deleteGroup_def set_generic_def

lemma call_in_flight:
  assumes "saving s"
  shows "write_of (apply_call e c s) = None \<and>
         saving (store_after (apply_call e c s)) \<and>
         useDb (store_after (apply_call e c s)) = useDb s \<and>
         dbType (store_after (apply_call e c s)) = dbType s \<and>
         (pendingSave s \<longrightarrow> pendingSave (store_after (apply_call e c s)))"
  using assms
  by (cases c)
    (simp_all add: setter_defs persist_save_in_flight write_of_def store_after_def Let_def emit_def
      setUpdateTime_def split: prod.splits)

lemma call_quiet:
  assumes "\<not> persists c"
  shows "write_of (apply_call e c s) = None \<and>
         saving (store_after (apply_call e c s)) = saving s \<and>
         pendingSave (store_after (apply_call e c s)) = pendingSave s \<and>
         useDb (store_after (apply_call e c s)) = useDb s \<and>
         dbType (store_after (apply_call e c s)) = dbType s"
  using assms
  by (cases c)
    (simp_all add: setter_defs persist_save_False write_of_def store_after_def Let_def emit_def
      setUpdateTime_def split: prod.splits)

lemma request_save_saving:
  "saving (db st) \<Longrightarrow> request_save e st = st\<lparr>db := (db st)\<lparr>pendingSave := True\<rparr>\<rparr>"
  by (simp add: request_save_def save_begin_saving launch_def)

lemma step_call:
  "step (Call e c) st =
     launch (write_of (apply_call e c (db st))) (st\<lparr>db := store_after (apply_call e c (db st))\<rparr>)"
  by (simp add: write_of_def store_after_def split: prod.splits)

lemma step_in_flight:
  assumes "saving (db st)" and "arrives_in_flight a"
  shows "started (step a st) = started st \<and> inflight (step a st) = inflight st \<and>
         immediates (step a st) = immediates st \<and> saving (db (step a st)) \<and>
         useDb (db (step a st)) = useDb (db st) \<and> dbType (db (step a st)) = dbType (db st) \<and>
         (pendingSave (db st) \<or> is_save a \<longrightarrow> pendingSave (db (step a st)))"
proof (cases a)
  case (Call e c)
  show ?thesis
    using call_in_flight [OF assms(1), of e c]
    unfolding Call step_call by (simp add: launch_def)
next
  case (SaveCall e)
  then show ?thesis using assms by (simp add: request_save_saving)
next
  case (CloseCall e)
  then show ?thesis using assms by (simp add: request_save_saving)
next
  case (AutoSave e)
  then show ?thesis using assms by (simp add: request_save_saving)
qed (use assms in simp_all)

lemma run_in_flight:
  assumes "saving (db st)" and "list_all arrives_in_flight as"
  shows "started (run as st) = started st \<and> inflight (run as st) = inflight st \<and>
         immediates (run as st) = immediates st \<and> saving (db (run as st)) \<and>
         useDb (db (run as st)) = useDb (db st) \<and> dbType (db (run as st)) = dbType (db st) \<and>
         (pendingSave (db st) \<or> list_ex is_save as \<longrightarrow> pendingSave (db (run as st)))"
  using assms
proof (induction as arbitrary: st)
  case Nil
  then show ?case by simp
next
  case (Cons a as)
  have a: "arrives_in_flight a" and as: "list_all arrives_in_flight as"
    using Cons.prems(2) by simp_all
  note s = step_in_flight [OF Cons.prems(1) a]
  have sv: "saving (db (step a st))"
    using s by simp
  show ?case
    using Cons.IH [OF sv as] s by auto
qed

lemma step_quiet:
  assumes "quiet a"
  shows "started (step a st) = started st \<and> inflight (step a st) = inflight st \<and>
         immediates (step a st) = immediates st \<and> saving (db (step a st)) = saving (db st) \<and>
         pendingSave (db (step a st)) = pendingSave (db st) \<and>
         useDb (db (step a st)) = useDb (db st) \<and> dbType (db (step a st)) = dbType (db st)"
proof (cases a)
  case (Call e c)
  with assms have "\<not> persists c" by simp
  from call_quiet [OF this, of e "db st"] show ?thesis
    unfolding Call step_call by (simp add: launch_def)
qed (use assms in simp_all)

lemma run_quiet:
  assumes "list_all quiet bs"
  shows "started (run bs st) = started st \<and> inflight (run bs st) = inflight st \<and>
         immediates (run bs st) = immediates st \<and> saving (db (run bs st)) = saving (db st) \<and>
         pendingSave (db (run bs st)) = pendingSave (db st) \<and>
         useDb (db (run bs st)) = useDb (db st) \<and> dbType (db (run bs st)) = dbType (db st)"
  using assms
proof (induction bs arbitrary: st)
  case Nil
  then show ?case by simp
next
  case (Cons a bs)
  have a: "quiet a" and bs: "list_all quiet bs"
    using Cons.prems by simp_all
  show ?case
    using Cons.IH [OF bs, of "step a st"] step_quiet [OF a, of st] by simp
qed

lemma holds_snapshot_to_document: "holds_snapshot (to_document s) s"
  by (simp add: holds_snapshot_def to_document_def)

text \<open>
  Claim C3, as the code has it. Let a physical write be in flight, with the driver in
  use initialised. While it is in flight let calls of \<^verbatim>\<open>save\<close>, of the setters and of
  \<^verbatim>\<open>close\<close> and ticks of the timer arrive (the list \<open>as\<close>), at least one of them a
  call of \<^verbatim>\<open>save\<close>: they start no write and leave the one flag \<open>pendingSave\<close> set.
  When the write in flight succeeds, one \<^verbatim>\<open>setImmediate\<close> callback is queued and the
  flag is cleared. Setter calls that do not persist may follow (the list \<open>bs\<close>). When
  the callback runs, one write starts, and its document holds the three mappings as they
  are at that moment, with every change that \<open>as\<close> and \<open>bs\<close> made; when that write
  succeeds nothing more is queued. So one write is added to those started, however many
  calls of \<^verbatim>\<open>save\<close> arrived. When the write in flight fails instead, no callback is
  queued, no write starts, and the flag stays set.
\<close>

theorem save_coalescing:
  assumes "inflight st = Some wr" and "saving (db st)"
    and "useDb (db st) \<longrightarrow> dbType (db st) \<noteq> None"
    and "list_all arrives_in_flight as" and "list_ex is_save as" and "list_all quiet bs"
  shows "(let st1 = run as st;
             st2 = step (WriteDone IoOk) st1;
             st3 = run bs st2;
             st4 = step (Immediate e) st3;
             st5 = step (WriteDone IoOk) st4
         in started st1 = started st \<and> inflight st1 = Some wr \<and> pendingSave (db st1) \<and>
            started st2 = started st \<and> inflight st2 = None \<and>
            immediates st2 = immediates st + 1 \<and> \<not> pendingSave (db st2) \<and>
            snapshot (db st2) = snapshot (db st1) \<and>
            started st3 = started st \<and> inflight st3 = None \<and>
            immediates st3 = immediates st + 1 \<and>
            (\<exists>wr2. started st4 = started st @ [wr2] \<and> inflight st4 = Some wr2 \<and>
                   holds_snapshot (document_of wr2) (db st3)) \<and>
            immediates st4 = immediates st \<and>
            started st5 = started st4 \<and> inflight st5 = None \<and>
            immediates st5 = immediates st \<and> \<not> pendingSave (db st5) \<and> \<not> saving (db st5) \<and>
            length (started st5) = length (started st) + 1) \<and>
         (res \<noteq> IoOk \<longrightarrow>
            (let stf = step (WriteDone res) (run as st)
             in started stf = started st \<and> inflight stf = None \<and>
                immediates stf = immediates st \<and> pendingSave (db stf) \<and>
                \<not> saving (db stf) \<and> dirty (db stf) = dirty (db (run as st))))"
proof -
  define st1 where "st1 = run as st"
  define st2 where "st2 = step (WriteDone IoOk) st1"
  define st3 where "st3 = run bs st2"
  define st4 where "st4 = step (Immediate e) st3"
  define st5 where "st5 = step (WriteDone IoOk) st4"
  have s1: "started st1 = started st" "inflight st1 = Some wr" "immediates st1 = immediates st"
    "saving (db st1)" "useDb (db st1) = useDb (db st)" "dbType (db st1) = dbType (db st)"
    "pendingSave (db st1)"
    unfolding st1_def using run_in_flight [OF assms(2,4)] assms(1,5) by simp_all
  have s2: "st2 = st1\<lparr>db := (db st1)\<lparr>dirty := False, saving := False, pendingSave := False,
                                      events := events (db st1) @ [Saved]\<rparr>,
                     disk := write_effect IoOk wr (db st1) (disk st1),
                     inflight := None, immediates := immediates st + 1\<rparr>"
    unfolding st2_def using s1 by (simp add: save_finish_ok)
  have s3: "started st3 = started st" "inflight st3 = None" "immediates st3 = immediates st + 1"
    "\<not> saving (db st3)" "\<not> pendingSave (db st3)" "useDb (db st3) = useDb (db st)"
    "dbType (db st3) = dbType (db st)"
    unfolding st3_def using run_quiet [OF assms(6), of st2] s2 s1 by simp_all
  have idle: "\<not> saving (db st3)" "useDb (db st3) \<longrightarrow> dbType (db st3) \<noteq> None"
    using s3 assms(3) by simp_all
  from save_begin_idle [OF idle, of e] obtain wr2 where
    b: "save_begin e (db st3) = (None, (db st3)\<lparr>saving := True, pendingSave := False\<rparr>, Some wr2)"
    and d: "document_of wr2 = to_document (db st3)" by blast
  have s4: "st4 = st3\<lparr>immediates := immediates st,
                     db := (db st3)\<lparr>saving := True, pendingSave := False\<rparr>,
                     inflight := Some wr2, started := started st @ [wr2]\<rparr>"
    unfolding st4_def using s3 b
    by (simp add: request_save_def launch_def)
  have s5: "started st5 = started st4 \<and> inflight st5 = None \<and> immediates st5 = immediates st \<and>
            \<not> pendingSave (db st5) \<and> \<not> saving (db st5)"
    unfolding st5_def using s4 by (simp add: save_finish_ok)
  have h: "holds_snapshot (document_of wr2) (db st3)"
    unfolding d by (rule holds_snapshot_to_document)
  have ok: "started st1 = started st \<and> inflight st1 = Some wr \<and> pendingSave (db st1) \<and>
            started st2 = started st \<and> inflight st2 = None \<and>
            immediates st2 = immediates st + 1 \<and> \<not> pendingSave (db st2) \<and>
            snapshot (db st2) = snapshot (db st1) \<and>
            started st3 = started st \<and> inflight st3 = None \<and>
            immediates st3 = immediates st + 1 \<and>
            (\<exists>wr2. started st4 = started st @ [wr2] \<and> inflight st4 = Some wr2 \<and>
                   holds_snapshot (document_of wr2) (db st3)) \<and>
            immediates st4 = immediates st \<and>
            started st5 = started st4 \<and> inflight st5 = None \<and>
            immediates st5 = immediates st \<and> \<not> pendingSave (db st5) \<and> \<not> saving (db st5) \<and>
            length (started st5) = length (started st) + 1"
    using s1 s2 s3 s4 s5 h by (auto simp: snapshot_def)
  have failed: "started (step (WriteDone res) st1) = started st \<and>
      inflight (step (WriteDone res) st1) = None \<and>
      immediates (step (WriteDone res) st1) = immediates st \<and>
      pendingSave (db (step (WriteDone res) st1)) \<and>
      \<not> saving (db (step (WriteDone res) st1)) \<and>
      dirty (db (step (WriteDone res) st1)) = dirty (db st1)"
    if "res \<noteq> IoOk"
  proof -
    have f: "step (WriteDone res) st1 =
        st1\<lparr>db := (db st1)\<lparr>saving := False\<rparr>,
            disk := write_effect res wr (db st1) (disk st1), inflight := None,
            immediates := immediates st\<rparr>"
      using that s1 by (simp add: save_finish_def save_failure_def)
    show ?thesis
      unfolding f using s1 by simp
  qed
  show ?thesis
    unfolding Let_def st1_def[symmetric] st2_def[symmetric] st3_def[symmetric] st4_def[symmetric]
      st5_def[symmetric]
    using ok failed by blast
qed

lemma norm_obj_examples:
  "norm_obj fmempty = fmempty"
  "norm_obj (fmupd ''autoread'' (JBool True) fmempty) = fmupd ''autoread'' (JBool True) fmempty"
  "norm_obj (fmupd ''welcome'' (JStr ''hi'') fmempty) = fmupd ''welcome'' (JStr ''hi'') fmempty"
  by (simp_all add: norm_obj_def fmfilter_upd fmmap_fmupd)

lemma run_flight1:
  "run after1 (step (WriteDone IoOk) (run flight1 sys1)) =
     \<lparr> db = store1a,
       disk = \<lparr> fs = fmupd DEFAULT_FILE (Json (to_document store0)) fmempty, remote = None \<rparr>,
       inflight = None, immediates = 1,
       started = [LocalWrite (DEFAULT_FILE @ ''.tmp'') (to_document store0)] \<rparr>"
  by (simp add: flight1_def after1_def sys1_def store0_eq request_save_saving setGlobal_def
      setGroupPlugin_def persist_save_in_flight persist_save_False launch_def save_finish_ok
      Let_def emit_def setUpdateTime_def existing_of_def jset_def null_object_def empty_object_def
      slot_examples store1a_def write_effect_def world0_def)

theorem save_coalescing_witness:
  "inflight sys1 = Some (LocalWrite (DEFAULT_FILE @ ''.tmp'') (to_document store0)) \<and>
   saving (db sys1) \<and> \<not> useDb (db sys1) \<and>
   list_all arrives_in_flight flight1 \<and> list_ex is_save flight1 \<and> list_all quiet after1 \<and>
   started (run flight1 sys1) = [LocalWrite (DEFAULT_FILE @ ''.tmp'') (to_document store0)] \<and>
   pendingSave (db (run flight1 sys1)) \<and>
   immediates (step (WriteDone IoOk) (run flight1 sys1)) = 1 \<and>
   holds_snapshot document2 (db (run after1 (step (WriteDone IoOk) (run flight1 sys1)))) \<and>
   started (step (Immediate env1) (run after1 (step (WriteDone IoOk) (run flight1 sys1)))) =
     [LocalWrite (DEFAULT_FILE @ ''.tmp'') (to_document store0),
      LocalWrite (DEFAULT_FILE @ ''.tmp'') document2] \<and>
   length (started (step (WriteDone IoOk) (step (Immediate env1) (run after1
     (step (WriteDone IoOk) (run flight1 sys1)))))) = 2 \<and>
   RenameFailed \<noteq> IoOk \<and>
   immediates (step (WriteDone RenameFailed) (run flight1 sys1)) = 0 \<and>
   pendingSave (db (step (WriteDone RenameFailed) (run flight1 sys1)))"
proof -
  have h: "inflight sys1 = Some (LocalWrite (DEFAULT_FILE @ ''.tmp'') (to_document store0))"
    "saving (db sys1)" "useDb (db sys1) \<longrightarrow> dbType (db sys1) \<noteq> None"
    "list_all arrives_in_flight flight1" "list_ex is_save flight1" "list_all quiet after1"
    by (simp_all add: sys1_def store0_eq flight1_def after1_def)
  have u: "\<not> useDb (db sys1)"
    "started sys1 = [LocalWrite (DEFAULT_FILE @ ''.tmp'') (to_document store0)]"
    "immediates sys1 = 0"
    by (simp_all add: sys1_def store0_eq)
  have doc: "holds_snapshot document2 (db (run after1 (step (WriteDone IoOk) (run flight1 sys1))))"
    unfolding run_flight1
    by (simp add: holds_snapshot_def document2_def norm_obj_examples store1a_def fmmap_fmupd)
  have c: "started (run flight1 sys1) = started sys1 \<and> pendingSave (db (run flight1 sys1)) \<and>
      immediates (step (WriteDone IoOk) (run flight1 sys1)) = immediates sys1 + 1 \<and>
      (\<exists>wr2. started (step (Immediate env1) (run after1 (step (WriteDone IoOk) (run flight1 sys1)))) =
               started sys1 @ [wr2] \<and>
             holds_snapshot (document_of wr2)
               (db (run after1 (step (WriteDone IoOk) (run flight1 sys1))))) \<and>
      length (started (step (WriteDone IoOk) (step (Immediate env1) (run after1
        (step (WriteDone IoOk) (run flight1 sys1)))))) = length (started sys1) + 1 \<and>
      immediates (step (WriteDone RenameFailed) (run flight1 sys1)) = immediates sys1 \<and>
      pendingSave (db (step (WriteDone RenameFailed) (run flight1 sys1)))"
    using save_coalescing [OF h, of env1 RenameFailed] unfolding Let_def by blast
  have tmp: "started (step (Immediate env1) (run after1 (step (WriteDone IoOk) (run flight1 sys1)))) =
     [LocalWrite (DEFAULT_FILE @ ''.tmp'') (to_document store0),
      LocalWrite (DEFAULT_FILE @ ''.tmp'') document2]"
    unfolding run_flight1
    by (simp add: request_save_def save_begin_def launch_def Let_def to_document_def document2_def
        norm_obj_examples store1a_def store0_eq fmmap_fmupd)
  show ?thesis
    using c h(1,2,4,5,6) u doc tmp
    by (simp del: run.simps step.simps list.map)
qed

text \<open>
  Claim C3 as stated fails where the write in flight fails: the \<^verbatim>\<open>catch\<close> block of
  \<^verbatim>\<open>save\<close> skips the rescheduling, so after two calls of \<^verbatim>\<open>save\<close> no callback is
  queued, no further write starts, and the flag stays set.
\<close>

theorem failed_write_drops_pending_save:
  "inflight sys1 = Some (LocalWrite (DEFAULT_FILE @ ''.tmp'') (to_document store0)) \<and>
   started sys1 = [LocalWrite (DEFAULT_FILE @ ''.tmp'') (to_document store0)] \<and>
   pendingSave (db (run [SaveCall env0, SaveCall env1] sys1)) \<and>
   immediates (step (WriteDone WriteFailed) (run [SaveCall env0, SaveCall env1] sys1)) = 0 \<and>
   pendingSave (db (step (WriteDone WriteFailed) (run [SaveCall env0, SaveCall env1] sys1))) \<and>
   \<not> saving (db (step (WriteDone WriteFailed) (run [SaveCall env0, SaveCall env1] sys1))) \<and>
   inflight (step (WriteDone WriteFailed) (run [SaveCall env0, SaveCall env1] sys1)) = None \<and>
   started (step (Immediate env1)
     (step (WriteDone WriteFailed) (run [SaveCall env0, SaveCall env1] sys1))) =
     [LocalWrite (DEFAULT_FILE @ ''.tmp'') (to_document store0)]"
  by (simp add: sys1_def store0_eq request_save_saving save_finish_def save_failure_def)

subsection \<open>Saving and loading again\<close>

lemma serializable_norm: "serializable v \<Longrightarrow> json_norm v = v"
proof (induction v)
  case (JArr xs)
  then have "\<forall>x \<in> set xs. json_norm x = x \<and> x \<noteq> JUndefined"
    by (auto simp: list_all_iff)
  then have "map (\<lambda>v. if v = JUndefined then JNull else v) (map json_norm xs) = xs"
    by (induction xs) auto
  then show ?case by simp
next
  case (JObj p m)
  have pr: "p = JObjectPrototype"
    using JObj.prems by simp
  have ser: "\<And>k v. fmlookup m k = Some v \<Longrightarrow> serializable v"
    using JObj.prems by (auto simp: fmpred_iff fmlookup_map  split: option.splits)
  have ih: "\<And>k v. fmlookup m k = Some v \<Longrightarrow> json_norm v = v"
    using JObj.IH(2) ser by (meson fmran'I)
  have "fmfilter (\<lambda>k. fmlookup (fmmap json_norm m) k \<noteq> Some JUndefined) (fmmap json_norm m) = m"
  proof (rule fmap_ext)
    fix k
    show "fmlookup (fmfilter (\<lambda>k. fmlookup (fmmap json_norm m) k \<noteq> Some JUndefined)
             (fmmap json_norm m)) k = fmlookup m k"
      using ih[of k] ser[of k] by (cases "fmlookup m k") auto
  qed
  then show ?case using pr by simp
qed simp_all

lemma norm_obj_id: "serializable_obj m \<Longrightarrow> norm_obj m = m"
proof (rule fmap_ext)
  fix k
  assume a: "serializable_obj m"
  show "fmlookup (norm_obj m) k = fmlookup m k"
  proof (cases "fmlookup m k")
    case None
    then show ?thesis by (simp add: norm_obj_def)
  next
    case (Some v)
    with a have "serializable v"
      by (auto simp: serializable_obj_def fmpred_iff)
    with Some show ?thesis
      by (auto simp: norm_obj_def serializable_norm)
  qed
qed

lemma to_document_serializable:
  "serializable_store s \<Longrightarrow>
     to_document s =
       \<lparr> doc_globalSettings = Some (snd (globalSettings s)),
         doc_groupSettings = Some (fmmap snd (groupSettings s)),
         doc_updateTimes = Some (fmmap Some (updateTimes s)) \<rparr>"
proof -
  assume a: "serializable_store s"
  have "fmmap (\<lambda>g. norm_obj (snd g)) (groupSettings s) = fmmap snd (groupSettings s)"
  proof (rule fmap_ext)
    fix j
    show "fmlookup (fmmap (\<lambda>g. norm_obj (snd g)) (groupSettings s)) j =
        fmlookup (fmmap snd (groupSettings s)) j"
      using a by (cases "fmlookup (groupSettings s) j")
        (auto simp: serializable_store_def fmpred_iff norm_obj_id)
  qed
  with a show ?thesis
    by (simp add: to_document_def serializable_store_def norm_obj_id)
qed

lemma adopt_to_document:
  "serializable_store s \<Longrightarrow> snapshot (adopt e (to_document s) s') = snapshot s"
proof -
  assume a: "serializable_store s"
  have "fmmap (\<lambda>v. case v of None \<Rightarrow> fmempty | Some m \<Rightarrow> m) (fmmap Some (updateTimes s)) = updateTimes s"
    by (rule fmap_ext) (simp add: option.map_comp comp_def option.map_ident)
  moreover have "fmmap snd (fmmap (\<lambda>m. (JObjectPrototype, m)) (fmmap snd (groupSettings s))) =
      fmmap snd (groupSettings s)"
    by (rule fmap_ext) (simp add: option.map_comp comp_def)
  ultimately show ?thesis
    by (simp add: to_document_serializable[OF a] adopt_def snapshot_def)
qed

lemma initClients_done:
  "initClientsIfNeeded e s = (None, s1) \<Longrightarrow> useDb s \<Longrightarrow>
     dbType s1 \<noteq> None \<and> initClientsIfNeeded e' s1 = (None, s1)"
  by (auto simp: initClientsIfNeeded_def initDbClients_def Let_def split: if_splits option.splits)

lemma initClients_flags:
  "initClientsIfNeeded e (s\<lparr>saving := a, pendingSave := b\<rparr>) =
     (fst (initClientsIfNeeded e s), (snd (initClientsIfNeeded e s))\<lparr>saving := a, pendingSave := b\<rparr>)"
  by (simp add: initClientsIfNeeded_def initDbClients_def Let_def split: option.splits)


lemma save_run_local:
  "\<not> useDb s \<Longrightarrow> \<not> saving s \<Longrightarrow> write_res e = IoOk \<Longrightarrow>
   save_run e s w =
     (None,
      s\<lparr>saving := False, pendingSave := False, dirty := False, events := events s @ [Saved]\<rparr>,
      w\<lparr>fs := fmupd (file_path s) (Json (to_document s)) (fmdrop (file_path s @ ''.tmp'') (fs w))\<rparr>,
      Some (LocalWrite (file_path s @ ''.tmp'') (to_document s)))"
  by (simp add: save_run_def save_begin_def Let_def save_finish_ok write_effect_def to_document_def)

lemma save_begin_remote:
  assumes "useDb s" "\<not> saving s" "initClientsIfNeeded e s = (None, s1)" "dbType s1 = Some t"
  shows "save_begin e s =
     (None, s1\<lparr>saving := True, pendingSave := False\<rparr>,
      Some (RemoteWrite t (remote_target s1) (to_document s)))"
proof -
  have f: "globalSettings s1 = globalSettings s" "groupSettings s1 = groupSettings s"
    "updateTimes s1 = updateTimes s"
    using initClients_fields[OF assms(3)] by simp_all
  have d: "to_document (s\<lparr>saving := True, pendingSave := False\<rparr>) = to_document s"
    by (simp add: to_document_def)
  have t: "remote_target (s1\<lparr>saving := True, pendingSave := False\<rparr>) = remote_target s1"
    by (simp add: remote_target_def)
  show ?thesis
    unfolding save_begin_def Let_def initClients_flags d
    using assms t by simp
qed

lemma save_run_remote:
  assumes "useDb s" "\<not> saving s" "write_res e = IoOk" "initClientsIfNeeded e s = (None, s1)"
  shows "\<exists>t. dbType s1 = Some t \<and>
   save_run e s w =
     (None,
      s1\<lparr>saving := False, pendingSave := False, dirty := False, events := events s @ [Saved]\<rparr>,
      (if t = File then w\<lparr>fs := fmupd (remote_target s1) (Json (to_document s)) (fs w)\<rparr>
       else w\<lparr>remote := Some (Json (to_document s))\<rparr>),
      Some (RemoteWrite t (remote_target s1) (to_document s)))"
proof -
  from initClients_done[OF assms(4,1)] obtain t where t: "dbType s1 = Some t" by auto
  have ev: "events s1 = events s"
    using initClients_fields[OF assms(4)] by simp
  have "save_run e s w =
     (None,
      s1\<lparr>saving := False, pendingSave := False, dirty := False, events := events s @ [Saved]\<rparr>,
      (if t = File then w\<lparr>fs := fmupd (remote_target s1) (Json (to_document s)) (fs w)\<rparr>
       else w\<lparr>remote := Some (Json (to_document s))\<rparr>),
      Some (RemoteWrite t (remote_target s1) (to_document s)))"
    unfolding save_run_def save_begin_remote[OF assms(1,2,4) t]
    using assms(3) ev by (simp add: save_finish_ok write_effect_def)
  with t show ?thesis by blast
qed

text \<open>
  Claim C5, as the code has it. Let the snapshot hold only values that JSON can carry
  (no \<^verbatim>\<open>undefined\<close>, no \<^verbatim>\<open>NaN\<close>), let no write be in flight, and let the driver
  initialise and the write and the reads succeed. Then \<^verbatim>\<open>save()\<close> followed by
  \<^verbatim>\<open>load()\<close>, against the local file or against the external backend, returns
  \<^verbatim>\<open>true\<close> and leaves a snapshot equal to the one before the save.
\<close>

theorem save_load_roundtrip:
  assumes "serializable_store s" and "\<not> saving s" and "write_res e1 = IoOk"
    and "read_ok e2" and "remote_ok e2"
    and "fst (initClientsIfNeeded e1 s) = None"
  shows "fst (save_then_load e1 e2 s w) \<and>
         snapshot (store_after (save_then_load e1 e2 s w)) = snapshot s"
proof (cases "useDb s")
  case False
  then show ?thesis
    using assms
    by (simp add: save_then_load_def save_run_local load_def load_local_def store_after_def
        adopt_to_document)
next
  case True
  obtain s1 where i: "initClientsIfNeeded e1 s = (None, s1)"
    using assms(6) by (cases "initClientsIfNeeded e1 s") auto
  from save_run_remote[OF True assms(2,3) i, of w] obtain t where
    t: "dbType s1 = Some t" and
    r: "save_run e1 s w =
     (None,
      s1\<lparr>saving := False, pendingSave := False, dirty := False, events := events s @ [Saved]\<rparr>,
      (if t = File then w\<lparr>fs := fmupd (remote_target s1) (Json (to_document s)) (fs w)\<rparr>
       else w\<lparr>remote := Some (Json (to_document s))\<rparr>),
      Some (RemoteWrite t (remote_target s1) (to_document s)))" by blast
  have u: "useDb s1" using initClients_fields[OF i] True by simp
  show ?thesis
    using assms(1,4,5) t u
    by (cases t)
       (simp_all add: save_then_load_def r load_def initClientsIfNeeded_def remoteLoad_def
        remote_target_def store_after_def adopt_to_document)
qed

lemma store1_serializable: "serializable_store store1"
  by (auto simp: serializable_store_def serializable_obj_def fmpred_iff store1_def store0_eq
      split: if_splits)

theorem save_load_roundtrip_witness:
  "serializable_store store1 \<and> \<not> saving store1 \<and> write_res env0 = IoOk \<and> read_ok env1 \<and>
   remote_ok env1 \<and> fst (initClientsIfNeeded env0 store1) = None \<and>
   fst (save_then_load env0 env1 store1 world0) \<and>
   snapshot (store_after (save_then_load env0 env1 store1 world0)) = snapshot store1"
proof -
  have h: "\<not> saving store1" "write_res env0 = IoOk" "read_ok env1" "remote_ok env1"
    "fst (initClientsIfNeeded env0 store1) = None"
    by (simp_all add: store1_def store0_eq env0_def env1_def initClientsIfNeeded_def)
  show ?thesis
    using save_load_roundtrip [OF store1_serializable h, of world0] store1_serializable h
    by simp
qed

lemma store2_eq:
  "store2 = store0\<lparr> groupSettings :=
        fmupd ''owner@bot'' (JObjectPrototype, fmupd ''alice'' JUndefined fmempty) fmempty,
      updateTimes := fmupd ''owner@bot'' (fmupd ''alice'' ''2026-01-01T00:00:00.000Z'' fmempty) fmempty,
      dirty := True, events := [Update (Group ''owner@bot'') ''alice'' JUndefined] \<rparr>"
  by (simp add: store2_def set_generic_def isJid_def string_of_def setGroupPlugin_def Let_def
      store_after_def persist_save_False emit_def setUpdateTime_def existing_of_def store0_eq env0_def
      empty_object_def jset_own)

text \<open>
  Claim C5 as stated fails for a snapshot that holds \<^verbatim>\<open>undefined\<close>, such as the one
  \<^verbatim>\<open>set('owner@bot', 'alice')\<close> leaves: the key is not written, and is missing after
  the load.
\<close>

theorem undefined_lost_on_roundtrip:
  "fst (save_then_load env0 env1 store2 world0) \<and>
   fmlookup (snd (existing_of store2 ''owner@bot'')) ''alice'' = Some JUndefined \<and>
   fmlookup (snd (existing_of (store_after (save_then_load env0 env1 store2 world0)) ''owner@bot''))
     ''alice'' = None \<and>
   snapshot (store_after (save_then_load env0 env1 store2 world0)) \<noteq> snapshot store2"
proof -
  have norm_alice: "norm_obj (fmupd ''alice'' JUndefined fmempty) = fmempty"
    by (rule fmap_ext) (simp add: norm_obj_def)
  have idle: "\<not> useDb store2" "\<not> saving store2" "write_res env0 = IoOk"
    by (simp_all add: store2_eq store0_eq env0_def)
  have doc: "to_document store2 =
      \<lparr> doc_globalSettings = Some fmempty,
        doc_groupSettings = Some (fmupd ''owner@bot'' fmempty fmempty),
        doc_updateTimes = Some (fmupd ''owner@bot'' (Some (fmupd ''alice'' ''2026-01-01T00:00:00.000Z'' fmempty)) fmempty) \<rparr>"
    by (simp add: to_document_def store2_eq store0_eq fmmap_fmupd null_object_def norm_alice
        norm_obj_examples)
  have a: "fmlookup (snd (existing_of store2 ''owner@bot'')) ''alice'' = Some JUndefined"
    by (simp add: existing_of_def store2_eq)
  have l: "save_then_load env0 env1 store2 world0 =
      (True, adopt env1 (to_document store2)
         (store2\<lparr>saving := False, pendingSave := False, dirty := False, events := events store2 @ [Saved]\<rparr>),
       world0\<lparr>fs := fmupd (file_path store2) (Json (to_document store2))
          (fmdrop (file_path store2 @ ''.tmp'') (fs world0))\<rparr>, None)"
    using idle
    by (simp add: save_then_load_def save_run_local load_def load_local_def env1_def)
  have b: "fmlookup (snd (existing_of (store_after (save_then_load env0 env1 store2 world0))
      ''owner@bot'')) ''alice'' = None"
    by (simp add: l store_after_def adopt_def doc existing_of_def)
  have "fmmap snd (groupSettings (store_after (save_then_load env0 env1 store2 world0))) \<noteq>
      fmmap snd (groupSettings store2)"
  proof
    assume eq: "fmmap snd (groupSettings (store_after (save_then_load env0 env1 store2 world0))) =
      fmmap snd (groupSettings store2)"
    have x: "fmlookup (fmmap snd (groupSettings (store_after (save_then_load env0 env1 store2 world0))))
        ''owner@bot'' = Some fmempty"
      by (simp add: l store_after_def adopt_def doc)
    have y: "fmlookup (fmmap snd (groupSettings store2)) ''owner@bot'' =
        Some (fmupd ''alice'' JUndefined fmempty)"
      by (simp add: store2_eq)
    have "Some (fmempty :: props) = Some (fmupd ''alice'' JUndefined fmempty)"
      using trans [OF sym [OF x [unfolded eq]] y] .
    then have "fmlookup (fmempty :: props) ''alice'' = Some JUndefined"
      by simp
    then show False by simp
  qed
  then have c: "snapshot (store_after (save_then_load env0 env1 store2 world0)) \<noteq> snapshot store2"
    by (auto simp: snapshot_def)
  show ?thesis
    using a b c by (simp add: l)
qed

subsection \<open>Loading where there is no file\<close>

lemma to_document_empty:
  "to_document
     (s\<lparr>globalSettings := (JObjectPrototype, fmempty), groupSettings := fmempty,
        updateTimes := fmempty\<rparr>) = empty_document"
  by (simp add: to_document_def empty_document_def norm_obj_def empty_object_def)

text \<open>
  Claim C7, as the code has it. If no file exists at the local path, no external backend
  is configured, no write is in flight and the write succeeds, then \<^verbatim>\<open>load()\<close> returns
  \<^verbatim>\<open>true\<close>, leaves the three caches empty, and leaves at the local path the document
  \<^verbatim>\<open>{globalSettings:{}, groupSettings:{}, updateTimes:{}}\<close>.
\<close>

theorem load_bootstraps_missing_file:
  assumes "fmlookup (fs w) (file_path s) = None" and "\<not> useDb s" and "\<not> saving s"
    and "write_res e = IoOk"
  shows "fst (load e s w) \<and>
         snapshot (store_after (load e s w)) = (fmempty, fmempty, fmempty) \<and>
         globalSettings (store_after (load e s w)) = empty_object \<and>
         fmlookup (fs (world_after (load e s w))) (file_path s) = Some (Json empty_document)"
  using assms
  by (simp add: load_def load_local_def writeInitialFile_def save_run_local to_document_empty
      store_after_def world_after_def snapshot_def empty_object_def)

theorem load_bootstraps_missing_file_witness:
  "fmlookup (fs world0) (file_path store1) = None \<and> \<not> useDb store1 \<and> \<not> saving store1 \<and>
   write_res env0 = IoOk \<and> fst (load env0 store1 world0) \<and>
   snapshot (store_after (load env0 store1 world0)) = (fmempty, fmempty, fmempty) \<and>
   fmlookup (fs (world_after (load env0 store1 world0))) DEFAULT_FILE = Some (Json empty_document)"
proof -
  have h: "fmlookup (fs world0) (file_path store1) = None" "\<not> useDb store1" "\<not> saving store1"
    "write_res env0 = IoOk"
    by (simp_all add: world0_def store1_def store0_eq env0_def)
  have f: "file_path store1 = DEFAULT_FILE"
    by (simp add: store1_def store0_eq)
  show ?thesis
    using load_bootstraps_missing_file [OF h] h f by simp
qed

lemma store_pg_eq:
  "store_pg = store0\<lparr>databaseUrl := Some ''postgres://db.example/bot'', useDb := True\<rparr>"
  by (simp add: store_pg_def init_opts_def opts0_def truthy_str_def Let_def)

lemma postgres_protocol: "URL_protocol ''postgres://db.example/bot'' = Some ''postgres:''"
  by code_simp

text \<open>
  Claim C7 as stated fails where a backend is configured and holds no document: the
  empty document goes to the backend, and the local path still has no file.
\<close>

theorem bootstrap_goes_to_backend:
  "fmlookup (fs world0) (file_path store_pg) = None \<and>
   fst (load env0 store_pg world0) \<and>
   fmlookup (fs (world_after (load env0 store_pg world0))) (file_path store_pg) = None \<and>
   remote (world_after (load env0 store_pg world0)) = Some (Json empty_document)"
proof -
  have i: "initClientsIfNeeded env0 store_pg = (None, store_pg\<lparr>dbType := Some Postgres\<rparr>)"
    by (simp add: initClientsIfNeeded_def initDbClients_def store_pg_eq store0_eq
        postgres_protocol Let_def env0_def)
  have r: "remoteLoad env0 (store_pg\<lparr>dbType := Some Postgres\<rparr>) world0 =
      (None, store_pg\<lparr>dbType := Some Postgres\<rparr>, None)"
    by (simp add: remoteLoad_def initClientsIfNeeded_def store_pg_eq store0_eq world0_def)
  have u: "useDb store_pg"
    by (simp add: store_pg_eq)
  have l: "load env0 store_pg world0 = load_local env0 (store_pg\<lparr>dbType := Some Postgres\<rparr>) world0"
    by (simp add: load_def i r u)
  show ?thesis
    unfolding l
    by (simp add: load_local_def writeInitialFile_def save_run_def save_begin_def
        initClientsIfNeeded_def save_finish_ok write_effect_def world_after_def Let_def
        world0_def store_pg_eq store0_eq env0_def to_document_def norm_obj_def empty_document_def
        empty_object_def)
qed

subsection \<open>Loading a file that does not parse\<close>

lemma load_catch_garbage:
  "fmlookup (fs w) (file_path s) = Some (Garbage x) \<Longrightarrow>
   load_catch e s w =
     (False, s, (if copy_ok e then w\<lparr>fs := fmupd (corruptPath e s) (Garbage x) (fs w)\<rparr> else w), None)"
  by (simp add: load_catch_def)

lemma load_local_garbage:
  "fmlookup (fs w) (file_path s) = Some (Garbage x) \<Longrightarrow>
   load_local e s w = load_catch e s w"
  by (simp add: load_local_def)

lemma remoteLoad_after_init:
  "initClientsIfNeeded e s = (None, s1) \<Longrightarrow> useDb s \<Longrightarrow>
     remoteLoad e s1 w = remoteLoad e s w"
  using initClients_done[of e s s1 e] initClients_fields[of e s None s1]
  by (simp add: remoteLoad_def)

lemma load_without_document:
  assumes "fmlookup (fs w) (file_path s) = Some (Garbage x)"
    and "snd (snd (remoteLoad e s w)) = None"
  shows "\<exists>s1. load e s w = load_catch e s1 w \<and> snapshot s1 = snapshot s \<and>
           file_path s1 = file_path s \<and> globalSettings s1 = globalSettings s \<and>
           groupSettings s1 = groupSettings s"
proof (cases "useDb s")
  case False
  with assms show ?thesis
    by (auto simp: load_def load_local_garbage)
next
  case True
  obtain err s1 where i: "initClientsIfNeeded e s = (err, s1)"
    by (cases "initClientsIfNeeded e s")
  have f: "snapshot s1 = snapshot s" "file_path s1 = file_path s"
    "globalSettings s1 = globalSettings s" "groupSettings s1 = groupSettings s"
    using initClients_fields[OF i] by (simp_all add: snapshot_def)
  show ?thesis
  proof (cases err)
    case (Some a)
    with i True f show ?thesis by (auto simp: load_def)
  next
    case None
    have r: "remoteLoad e s1 w = remoteLoad e s w"
      using remoteLoad_after_init i None True by simp
    have "remoteLoad e s w = (None, s1, None)"
      using assms(2) i None True by (simp add: remoteLoad_def)
    with r i None True f assms(1) show ?thesis
      by (auto simp: load_def load_local_garbage)
  qed
qed

text \<open>
  Claim C4, as the code has it. Let the local file exist with text that does not parse,
  and let no document come from an external backend. Then \<^verbatim>\<open>load()\<close> returns
  \<^verbatim>\<open>false\<close> and leaves the three caches as they were; the backup path, the local path
  followed by \<^verbatim>\<open>.corrupt.\<close> and the clock's milliseconds, differs from the local path;
  if the copy succeeds the backup path holds the corrupt text afterwards, replacing
  whatever was there, and every other file and the backend are as before; if the copy
  fails nothing changes.
\<close>

theorem load_corrupt_file:
  assumes "fmlookup (fs w) (file_path s) = Some (Garbage x)"
    and "snd (snd (remoteLoad e s w)) = None"
  shows "\<not> fst (load e s w) \<and>
         snapshot (store_after (load e s w)) = snapshot s \<and>
         globalSettings (store_after (load e s w)) = globalSettings s \<and>
         groupSettings (store_after (load e s w)) = groupSettings s \<and>
         corruptPath e s \<noteq> file_path s \<and>
         fs (world_after (load e s w)) =
           (if copy_ok e then fmupd (corruptPath e s) (Garbage x) (fs w) else fs w) \<and>
         (\<forall>p. p \<noteq> corruptPath e s \<longrightarrow>
              fmlookup (fs (world_after (load e s w))) p = fmlookup (fs w) p) \<and>
         remote (world_after (load e s w)) = remote w"
proof -
  from load_without_document[OF assms] obtain s1 where
    l: "load e s w = load_catch e s1 w" and f: "snapshot s1 = snapshot s" "file_path s1 = file_path s"
      "globalSettings s1 = globalSettings s" "groupSettings s1 = groupSettings s"
    by blast
  have c: "corruptPath e s1 = corruptPath e s"
    using f by (simp add: corruptPath_def)
  show ?thesis
    using assms(1) f c
    by (simp add: l load_catch_def store_after_def world_after_def) (simp add: corruptPath_def)
qed

theorem load_corrupt_file_witness:
  "fmlookup (fs world2) (file_path store1) = Some (Garbage ''{ globalSettings: tru'') \<and>
   snd (snd (remoteLoad env1 store1 world2)) = None \<and>
   \<not> fst (load env1 store1 world2) \<and>
   snapshot (store_after (load env1 store1 world2)) = snapshot store1 \<and>
   fs (world_after (load env1 store1 world2)) =
     fmupd (DEFAULT_FILE @ ''.corrupt.7'') (Garbage ''{ globalSettings: tru'') (fs world2) \<and>
   fmlookup (fs (world_after (load env1 store1 world2))) (DEFAULT_FILE @ ''.corrupt.5'') =
     Some (Garbage ''an older backup'')"
proof -
  have h: "fmlookup (fs world2) (file_path store1) = Some (Garbage ''{ globalSettings: tru'')"
    "snd (snd (remoteLoad env1 store1 world2)) = None"
    by (simp_all add: world2_def store1_def store0_eq remoteLoad_def)
  have n: "show_nat 7 = ''7''"
    by code_simp
  have c: "corruptPath env1 store1 = DEFAULT_FILE @ ''.corrupt.7''" "copy_ok env1"
    by (simp_all add: corruptPath_def store1_def store0_eq env1_def n)
  have o: "fmlookup (fs world2) (DEFAULT_FILE @ ''.corrupt.5'') = Some (Garbage ''an older backup'')"
    by (simp add: world2_def)
  show ?thesis
    using load_corrupt_file [OF h] h c o by simp
qed

text \<open>
  Claim C4 as stated fails where an older backup carries the same timestamp: the copy
  replaces it.
\<close>

theorem backup_overwritten_on_same_timestamp:
  "fmlookup (fs world2) (file_path store0) = Some (Garbage ''{ globalSettings: tru'') \<and>
   fmlookup (fs world2) (corruptPath env0 store0) = Some (Garbage ''an older backup'') \<and>
   \<not> fst (load env0 store0 world2) \<and>
   fmlookup (fs (world_after (load env0 store0 world2))) (corruptPath env0 store0) =
     Some (Garbage ''{ globalSettings: tru'')"
proof -
  have n: "show_nat 5 = ''5''"
    by code_simp
  have c: "corruptPath env0 store0 = DEFAULT_FILE @ ''.corrupt.5''"
    by (simp add: corruptPath_def store0_eq env0_def n)
  have g: "fmlookup (fs world2) (file_path store0) = Some (Garbage ''{ globalSettings: tru'')"
    by (simp add: world2_def store0_eq)
  have u: "\<not> useDb store0" "copy_ok env0"
    by (simp_all add: store0_eq env0_def)
  have l: "load env0 store0 world2 =
      (False, store0,
       world2\<lparr>fs := fmupd (corruptPath env0 store0) (Garbage ''{ globalSettings: tru'') (fs world2)\<rparr>,
       None)"
    using g u by (simp add: load_def load_local_garbage load_catch_garbage)
  have o: "fmlookup (fs world2) (corruptPath env0 store0) = Some (Garbage ''an older backup'')"
    by (simp add: c world2_def)
  show ?thesis
    using g o by (simp add: l world_after_def)
qed

subsection \<open>An unrecognised scheme\<close>

lemma init_opts_fields:
  "snapshot (init_opts os s) = snapshot s" "dbType (init_opts os s) = dbType s"
  by (simp_all add: init_opts_def snapshot_def Let_def split: option.splits)

lemma init_opts_url:
  "truthy_str (opt_databaseUrl os) = Some u \<Longrightarrow>
     useDb (init_opts os s) \<and> databaseUrl (init_opts os s) = Some u"
  by (simp add: init_opts_def Let_def split: option.splits)

lemma load_catch_fields:
  "\<not> fst (load_catch e s w)" "store_after (load_catch e s w) = s"
  by (simp_all add: load_catch_def store_after_def split: option.splits)

text \<open>
  Claim C6 against the code. Let \<^verbatim>\<open>init\<close> be given a descriptor whose scheme is none of
  the recognised ones, on an instance whose driver is not yet chosen. Then
  \<^verbatim>\<open>_initDbClients\<close> throws \<^verbatim>\<open>Unsupported databaseUrl protocol\<close>, \<^verbatim>\<open>load\<close> catches it and
  returns \<^verbatim>\<open>false\<close>, and \<^verbatim>\<open>init\<close> drops that value and hands the instance to its caller,
  with no driver and with the caches as they were: the error does not reach the caller.
\<close>

theorem unsupported_scheme_swallowed:
  assumes "truthy_str (opt_databaseUrl os) = Some u" and "URL_protocol u = Some protocol"
    and "remove1 (CHR '':'') protocol \<notin>
           set [''postgres'', ''postgresql'', ''mongodb'', ''mysql'', ''file'', ''http'', ''https'']"
    and "dbType s = None"
  shows "fst (initDbClients e (init_opts os s)) =
           Some (UnsupportedProtocol (remove1 (CHR '':'') protocol)) \<and>
         \<not> fst (load e (init_opts os s) w) \<and>
         (\<exists>s' w'. init e os s w = Inr (s', w') \<and> dbType s' = None \<and> snapshot s' = snapshot s)"
proof -
  let ?s = "init_opts os s"
  have u: "useDb ?s" "databaseUrl ?s = Some u" "dbType ?s = None"
    using init_opts_url[OF assms(1)] assms(4) by (simp_all add: init_opts_fields)
  have i: "initDbClients e ?s = (Some (UnsupportedProtocol (remove1 (CHR '':'') protocol)), ?s)"
    using u assms(2,3) by (simp add: initDbClients_def Let_def)
  have l: "load e ?s w = load_catch e ?s w"
    using u i by (simp add: load_def initClientsIfNeeded_def)
  have "init e os s w = Inr (?s, world_after (load_catch e ?s w))"
    by (simp add: init_def l load_catch_def world_after_def split: option.splits)
  then show ?thesis
    using i l u assms(4) by (simp add: load_catch_fields init_opts_fields)
qed

lemma redis_protocol: "URL_protocol ''redis://localhost:6379'' = Some ''redis:''"
  by code_simp

text \<open>
  With \<^verbatim>\<open>redis://localhost:6379\<close> and a healthy local file, \<^verbatim>\<open>init\<close> returns the
  instance and the healthy file has been copied to a \<^verbatim>\<open>.corrupt.\<close> backup.
\<close>

theorem unsupported_scheme_swallowed_witness:
  "truthy_str (opt_databaseUrl opts_redis) = Some ''redis://localhost:6379'' \<and>
   URL_protocol ''redis://localhost:6379'' = Some ''redis:'' \<and>
   dbType store0 = None \<and>
   fst (initDbClients env0 (init_opts opts_redis store0)) = Some (UnsupportedProtocol ''redis'') \<and>
   \<not> fst (load env0 (init_opts opts_redis store0) world1) \<and>
   init env0 opts_redis store0 world1 =
     Inr (store0\<lparr>databaseUrl := Some ''redis://localhost:6379'', useDb := True\<rparr>,
          world1\<lparr>fs := fmupd (DEFAULT_FILE @ ''.corrupt.5'') (Json document1) (fs world1)\<rparr>)"
proof -
  have h: "truthy_str (opt_databaseUrl opts_redis) = Some ''redis://localhost:6379''"
    "URL_protocol ''redis://localhost:6379'' = Some ''redis:''"
    "remove1 (CHR '':'') ''redis:'' \<notin>
           set [''postgres'', ''postgresql'', ''mongodb'', ''mysql'', ''file'', ''http'', ''https'']"
    "dbType store0 = None"
    by (simp_all add: opts_redis_def opts0_def truthy_str_def redis_protocol store0_eq)
  have s: "init_opts opts_redis store0 =
      store0\<lparr>databaseUrl := Some ''redis://localhost:6379'', useDb := True\<rparr>"
    by (simp add: init_opts_def opts_redis_def opts0_def truthy_str_def Let_def)
  have n: "show_nat 5 = ''5''"
    by code_simp
  have i: "initClientsIfNeeded env0 (init_opts opts_redis store0) =
      (Some (UnsupportedProtocol ''redis''), init_opts opts_redis store0)"
    unfolding s
    by (simp add: initClientsIfNeeded_def initDbClients_def redis_protocol Let_def store0_eq)
  have u: "useDb (init_opts opts_redis store0)"
    by (simp add: s)
  have c: "load_catch env0 (init_opts opts_redis store0) world1 =
      (False, init_opts opts_redis store0,
       world1\<lparr>fs := fmupd (DEFAULT_FILE @ ''.corrupt.5'') (Json document1) (fs world1)\<rparr>, None)"
    unfolding s
    by (simp add: load_catch_def world1_def store0_eq corruptPath_def env0_def n)
  have r: "init env0 opts_redis store0 world1 =
     Inr (store0\<lparr>databaseUrl := Some ''redis://localhost:6379'', useDb := True\<rparr>,
          world1\<lparr>fs := fmupd (DEFAULT_FILE @ ''.corrupt.5'') (Json document1) (fs world1)\<rparr>)"
    by (simp add: init_def load_def u i c) (simp add: s)
  show ?thesis
    using unsupported_scheme_swallowed [OF h, of env0 world1] h(1,2,4) r
    by simp
qed

subsection \<open>Replaying calls\<close>

lemma stamp_upd:
  assumes "fmmap (fmmap (\<lambda>t. ())) u = fmmap (fmmap (\<lambda>t. ())) u'"
  shows "fmmap (fmmap (\<lambda>t. ()))
           (fmupd key (fmupd k t (case fmlookup u key of None \<Rightarrow> fmempty | Some m \<Rightarrow> m)) u) =
         fmmap (fmmap (\<lambda>t. ()))
           (fmupd key (fmupd k t' (case fmlookup u' key of None \<Rightarrow> fmempty | Some m \<Rightarrow> m)) u')"
proof -
  have "map_option (fmmap (\<lambda>t. ())) (fmlookup u key) = map_option (fmmap (\<lambda>t. ())) (fmlookup u' key)"
    using assms by (metis fmlookup_map)
  then have "fmmap (\<lambda>t. ()) (case fmlookup u key of None \<Rightarrow> fmempty | Some m \<Rightarrow> m) =
             fmmap (\<lambda>t. ()) (case fmlookup u' key of None \<Rightarrow> fmempty | Some m \<Rightarrow> m)"
    by (auto split: option.splits)
  with assms show ?thesis
    by (simp add: fmmap_fmupd)
qed

lemma stamp_drop:
  assumes "fmmap (fmmap (\<lambda>t. ())) u = fmmap (fmmap (\<lambda>t. ())) u'"
  shows "fmmap (fmmap (\<lambda>t. ())) (fmdrop j u) = fmmap (fmmap (\<lambda>t. ())) (fmdrop j u')"
proof (rule fmap_ext)
  fix x
  have "map_option (fmmap (\<lambda>t. ())) (fmlookup u x) = map_option (fmmap (\<lambda>t. ())) (fmlookup u' x)"
    using assms by (metis fmlookup_map)
  then show "fmlookup (fmmap (fmmap (\<lambda>t. ())) (fmdrop j u)) x =
             fmlookup (fmmap (fmmap (\<lambda>t. ())) (fmdrop j u')) x"
    by simp
qed

lemmas call_defs = setGlobal_def setGroupPlugin_def toggleGlobal_def toggleGroupPlugin_def
  setGroupPluginConfig_def deleteGroup_def set_generic_def store_after_def Let_def emit_def
  setUpdateTime_def existing_of_def persist_save_fields

lemma apply_call_core:
  assumes "globalSettings s = globalSettings s'" and "groupSettings s = groupSettings s'"
    and "stamped s = stamped s'"
  shows "globalSettings (store_after (apply_call e c s)) =
           globalSettings (store_after (apply_call e' c s')) \<and>
         groupSettings (store_after (apply_call e c s)) =
           groupSettings (store_after (apply_call e' c s')) \<and>
         stamped (store_after (apply_call e c s)) = stamped (store_after (apply_call e' c s')) \<and>
         fst (apply_call e c s) = fst (apply_call e' c s')"
  using assms
  by (cases c)
     (auto simp: call_defs stamped_def split: prod.splits intro!: stamp_upd stamp_drop)

lemma apply_call_times:
  assumes "updateTimes s = updateTimes s'" and "now e = now e'"
  shows "updateTimes (store_after (apply_call e c s)) = updateTimes (store_after (apply_call e' c s'))"
  using assms
  by (cases c) (auto simp: call_defs split: prod.splits)

lemma replay_core:
  assumes "map snd xs = map snd ys"
    and "globalSettings s = globalSettings s'" and "groupSettings s = groupSettings s'"
    and "stamped s = stamped s'"
  shows "globalSettings (replay xs s) = globalSettings (replay ys s') \<and>
         groupSettings (replay xs s) = groupSettings (replay ys s') \<and>
         stamped (replay xs s) = stamped (replay ys s')"
  using assms
proof (induction xs arbitrary: ys s s')
  case Nil
  then show ?case by simp
next
  case (Cons x xs)
  then obtain y ys' where ys: "ys = y # ys'" and c: "snd x = snd y" and r: "map snd xs = map snd ys'"
    by (cases ys) auto
  from apply_call_core[OF Cons.prems(2-4), of "fst x" "snd x" "fst y"] c
  have "globalSettings (store_after (apply_call (fst x) (snd x) s)) =
          globalSettings (store_after (apply_call (fst y) (snd y) s'))"
    "groupSettings (store_after (apply_call (fst x) (snd x) s)) =
          groupSettings (store_after (apply_call (fst y) (snd y) s'))"
    "stamped (store_after (apply_call (fst x) (snd x) s)) =
          stamped (store_after (apply_call (fst y) (snd y) s'))"
    by simp_all
  from Cons.IH[OF r this] show ?case
    by (simp add: ys)
qed

lemma replay_times:
  assumes "map snd xs = map snd ys" and "map (\<lambda>x. now (fst x)) xs = map (\<lambda>x. now (fst x)) ys"
    and "updateTimes s = updateTimes s'"
  shows "updateTimes (replay xs s) = updateTimes (replay ys s')"
  using assms
proof (induction xs arbitrary: ys s s')
  case Nil
  then show ?case by simp
next
  case (Cons x xs)
  then obtain y ys' where ys: "ys = y # ys'" and c: "snd x = snd y" and r: "map snd xs = map snd ys'"
    and n: "now (fst x) = now (fst y)"
    and ns: "map (\<lambda>x. now (fst x)) xs = map (\<lambda>x. now (fst x)) ys'"
    by (cases ys) auto
  from apply_call_times[OF Cons.prems(3) n, of "snd x"] c
  have "updateTimes (store_after (apply_call (fst x) (snd x) s)) =
          updateTimes (store_after (apply_call (fst y) (snd y) s'))"
    by simp
  from Cons.IH[OF r ns this] show ?case
    by (simp add: ys)
qed

lemma fresh_fields:
  "globalSettings (new_SettingsDB e os) = null_object" "groupSettings (new_SettingsDB e os) = fmempty"
  "updateTimes (new_SettingsDB e os) = fmempty" "stamped (new_SettingsDB e os) = fmempty"
  by (simp_all add: new_SettingsDB_def Let_def stamped_def)

text \<open>
  Claim C8, as the code has it. Replay the same sequence of setter calls on two freshly
  constructed instances, whatever their options, clocks and I/O outcomes. The global
  settings are equal, the group settings are equal, and the timestamps cover the same
  scopes and keys. If moreover each call reads the same time in both replays, the
  timestamps, and so the whole snapshots, are equal.
\<close>

theorem replay_deterministic:
  assumes "map snd xs = map snd ys"
  shows "globalSettings (replay xs (new_SettingsDB ea oa)) =
           globalSettings (replay ys (new_SettingsDB eb ob)) \<and>
         groupSettings (replay xs (new_SettingsDB ea oa)) =
           groupSettings (replay ys (new_SettingsDB eb ob)) \<and>
         stamped (replay xs (new_SettingsDB ea oa)) = stamped (replay ys (new_SettingsDB eb ob)) \<and>
         (map (\<lambda>x. now (fst x)) xs = map (\<lambda>x. now (fst x)) ys \<longrightarrow>
            snapshot (replay xs (new_SettingsDB ea oa)) = snapshot (replay ys (new_SettingsDB eb ob)))"
proof -
  have core: "globalSettings (replay xs (new_SettingsDB ea oa)) =
           globalSettings (replay ys (new_SettingsDB eb ob)) \<and>
         groupSettings (replay xs (new_SettingsDB ea oa)) =
           groupSettings (replay ys (new_SettingsDB eb ob)) \<and>
         stamped (replay xs (new_SettingsDB ea oa)) = stamped (replay ys (new_SettingsDB eb ob))"
    by (rule replay_core[OF assms]) (simp_all add: fresh_fields)
  have "updateTimes (replay xs (new_SettingsDB ea oa)) = updateTimes (replay ys (new_SettingsDB eb ob))"
    if "map (\<lambda>x. now (fst x)) xs = map (\<lambda>x. now (fst x)) ys"
    by (rule replay_times[OF assms that]) (simp add: fresh_fields)
  with core show ?thesis
    by (simp add: snapshot_def)
qed

theorem replay_deterministic_witness:
  "map snd calls_a = map snd calls_b \<and>
   map (\<lambda>x. now (fst x)) calls_a = map (\<lambda>x. now (fst x)) calls_b \<and>
   snapshot (replay calls_a (new_SettingsDB env0 opts0)) =
     snapshot (replay calls_b (new_SettingsDB env1 opts_redis)) \<and>
   globalSettings (replay calls_a (new_SettingsDB env0 opts0)) =
     (JNull, fmupd ''autoread'' (JBool False) fmempty)"
proof -
  have h: "map snd calls_a = map snd calls_b"
    "map (\<lambda>x. now (fst x)) calls_a = map (\<lambda>x. now (fst x)) calls_b"
    by (simp_all add: calls_a_def calls_b_def)
  have g: "globalSettings (replay calls_a (new_SettingsDB env0 opts0)) =
      (JNull, fmupd ''autoread'' (JBool False) fmempty)"
    by (simp add: calls_a_def call_defs fresh_fields jget_def jset_def null_object_def)
  show ?thesis
    using replay_deterministic [OF h(1), of env0 opts0 env1 opts_redis] h g
    by simp
qed

text \<open>
  Claim C8 as stated fails: the timestamps are read from the clock, so the same call
  replayed a day later leaves a different snapshot.
\<close>

theorem timestamps_follow_the_clock:
  "time_at (replay [(env0, SetGlobal ''autoread'' (JBool True) False)] (new_SettingsDB env0 opts0))
     Global ''autoread'' = Some ''2026-01-01T00:00:00.000Z'' \<and>
   time_at (replay [(env1, SetGlobal ''autoread'' (JBool True) False)] (new_SettingsDB env1 opts0))
     Global ''autoread'' = Some ''2026-01-02T00:00:00.000Z'' \<and>
   snapshot (replay [(env0, SetGlobal ''autoread'' (JBool True) False)] (new_SettingsDB env0 opts0)) \<noteq>
   snapshot (replay [(env1, SetGlobal ''autoread'' (JBool True) False)] (new_SettingsDB env1 opts0))"
proof -
  have a: "time_at (replay [(env0, SetGlobal ''autoread'' (JBool True) False)] (new_SettingsDB env0 opts0))
     Global ''autoread'' = Some ''2026-01-01T00:00:00.000Z''"
    by (simp add: call_defs time_at_def scope_token_def fresh_fields env0_def)
  have b: "time_at (replay [(env1, SetGlobal ''autoread'' (JBool True) False)] (new_SettingsDB env1 opts0))
     Global ''autoread'' = Some ''2026-01-02T00:00:00.000Z''"
    by (simp add: call_defs time_at_def scope_token_def fresh_fields env1_def)
  have "updateTimes (replay [(env0, SetGlobal ''autoread'' (JBool True) False)] (new_SettingsDB env0 opts0)) \<noteq>
    updateTimes (replay [(env1, SetGlobal ''autoread'' (JBool True) False)] (new_SettingsDB env1 opts0))"
    using a b by (auto simp: time_at_def)
  then show ?thesis
    using a b by (simp add: snapshot_def)
qed

subsection \<open>The dirty flag\<close>

lemma request_save_dirty: "dirty (db (request_save e st)) = dirty (db st)"
  by (auto simp: request_save_def launch_def split: prod.splits option.splits
      dest!: save_begin_fields)

lemma initClients_dirty: "dirty (snd (initClientsIfNeeded e s)) = dirty s"
  using initClients_fields[of e s "fst (initClientsIfNeeded e s)" "snd (initClientsIfNeeded e s)"]
  by simp

lemma remoteLoad_dirty: "dirty (fst (snd (remoteLoad e s w))) = dirty s"
proof (cases "initClientsIfNeeded e s")
  case (Pair err s1)
  with initClients_dirty[of e s] have "dirty s1 = dirty s" by simp
  with Pair show ?thesis
    by (cases err) (simp_all add: remoteLoad_def)
qed

lemma load_catch_result: "load_catch e s w = (False, s, world_after (load_catch e s w), None)"
  by (simp add: load_catch_def world_after_def split: option.splits)

lemma load_local_failed:
  "\<not> fst (load_local e s w) \<Longrightarrow> store_after (load_local e s w) = s"
  by (auto simp: load_local_def load_catch_def store_after_def
      split: option.splits prod.splits content.splits if_splits)

lemma load_failed_dirty:
  assumes "\<not> fst (load e s w)"
  shows "dirty (store_after (load e s w)) = dirty s"
proof (cases "useDb s")
  case False
  with assms show ?thesis
    by (simp add: load_def load_local_failed)
next
  case True
  obtain err s1 where i: "initClientsIfNeeded e s = (err, s1)"
    by (cases "initClientsIfNeeded e s")
  have d1: "dirty s1 = dirty s"
    using initClients_dirty[of e s] i by simp
  show ?thesis
  proof (cases err)
    case (Some a)
    with True i d1 show ?thesis
      by (simp add: load_def store_after_def load_catch_def split: option.splits)
  next
    case None
    obtain err2 s2 d where r: "remoteLoad e s1 w = (err2, s2, d)"
      by (cases "remoteLoad e s1 w")
    have d2: "dirty s2 = dirty s"
      using remoteLoad_dirty[of e s1 w] r d1 by simp
    have l: "load e s w =
        (case (err2, s2, d) of
           (Some err, s2, d) \<Rightarrow> load_catch e s2 w
         | (None, s2, Some d) \<Rightarrow> (True, adopt e d s2, w, None)
         | (None, s2, None) \<Rightarrow> load_local e s2 w)"
      using True i None r by (simp add: load_def)
    show ?thesis
    proof (cases err2)
      case (Some b)
      with l d2 show ?thesis
        by (simp add: store_after_def load_catch_def split: option.splits)
    next
      case None
      show ?thesis
      proof (cases d)
        case (Some doc)
        with l \<open>err2 = None\<close> assms show ?thesis by simp
      next
        case None
        with l \<open>err2 = None\<close> assms have "\<not> fst (load_local e s2 w)" by simp
        from load_local_failed[OF this] l \<open>err2 = None\<close> None d2 show ?thesis by simp
      qed
    qed
  qed
qed


lemma launch_db: "db (launch wr st) = db st"
  by (simp add: launch_def split: option.splits)

lemma loaded_db: "db (loaded r st) = store_after r"
  by (cases r) (simp add: loaded_def store_after_def)

lemma init_opts_dirty: "dirty (init_opts os s) = dirty s"
  by (simp add: init_opts_def Let_def split: option.splits)

lemma setter_dirty:
  "dirty (store_after (setGlobal e k v p s))"
  "dirty (store_after (setGroupPlugin e j k v p s))"
  "dirty (store_after (toggleGlobal e k p s))"
  "dirty (store_after (toggleGroupPlugin e j k p s))"
  "dirty (store_after (deleteGroup e j p s))"
  by (simp_all add: call_defs split: prod.splits)

lemma config_dirty:
  "(case fst (setGroupPluginConfig e j k c p s) of
      Inr v \<Rightarrow> dirty (store_after (setGroupPluginConfig e j k c p s))
    | Inl err \<Rightarrow> store_after (setGroupPluginConfig e j k c p s) = s)"
  by (simp add: call_defs)

lemma set_generic_dirty:
  "(case fst (set_generic e k n v p s) of
      Inr x \<Rightarrow> dirty (store_after (set_generic e k n v p s))
    | Inl err \<Rightarrow> store_after (set_generic e k n v p s) = s)"
  by (simp add: call_defs)

lemma setter_returns:
  "fst (setGlobal e k v p s) = Inr JUndefined"
  "fst (setGroupPlugin e j k v p s) = Inr JUndefined"
  "fst (toggleGlobal e k p s) = Inr (JBool (\<not> Boolean (jget (globalSettings s) k)))"
  "fst (toggleGroupPlugin e j k p s) = Inr (JBool (\<not> Boolean (jget (existing_of s j) k)))"
  "fst (deleteGroup e j p s) = Inr (JBool (fmlookup (groupSettings s) j \<noteq> None))"
  by (simp_all add: call_defs split: prod.splits)

lemma apply_call_dirty:
  "(case fst (apply_call e c s) of
      Inr v \<Rightarrow> dirty (store_after (apply_call e c s))
    | Inl err \<Rightarrow> store_after (apply_call e c s) = s)"
proof (cases c)
  case (SetGroupPluginConfig j k x p)
  show ?thesis
    unfolding SetGroupPluginConfig apply_call.simps by (rule config_dirty)
next
  case (SetGeneric k n v p)
  show ?thesis
    unfolding SetGeneric apply_call.simps by (rule set_generic_dirty)
qed (simp_all add: setter_dirty setter_returns)

lemma call_keeps_dirty: "dirty s \<Longrightarrow> dirty (store_after (apply_call e c s))"
  using apply_call_dirty[of e c s] by (auto split: sum.splits)

lemma save_finish_dirty:
  "res \<noteq> IoOk \<Longrightarrow> dirty (fst (snd (save_finish res wr s w))) = dirty s"
  by (simp add: save_finish_def save_failure_def)


lemma step_keeps_dirty:
  assumes "dirty (db st)" and "\<not> may_clear_dirty a st"
  shows "dirty (db (step a st))"
proof (cases a)
  case (Call e c)
  have "db (step a st) = store_after (apply_call e c (db st))"
    by (cases "apply_call e c (db st)") (simp add: Call launch_db store_after_def)
  with assms(1) show ?thesis
    by (simp add: call_keeps_dirty)
next
  case (SaveCall e)
  with assms(1) show ?thesis by (simp add: request_save_dirty)
next
  case (LoadCall e)
  with assms(2) have "\<not> fst (load e (db st) (disk st))"
    by (simp add: may_clear_dirty_def)
  from load_failed_dirty[OF this] assms(1) LoadCall show ?thesis
    by (simp add: loaded_db)
next
  case (InitCall e os)
  with assms(2) have "\<not> fst (load e (init_opts os (db st)) (disk st))"
    by (simp add: may_clear_dirty_def)
  from load_failed_dirty[OF this] assms(1) InitCall show ?thesis
    by (simp add: loaded_db init_opts_dirty)
next
  case (CloseCall e)
  with assms(1) show ?thesis by (simp add: request_save_dirty)
next
  case (AutoSave e)
  with assms(1) show ?thesis by (simp add: request_save_dirty)
next
  case (Immediate e)
  with assms(1) show ?thesis by (simp add: request_save_dirty)
next
  case (WriteDone res)
  show ?thesis
  proof (cases "inflight st")
    case None
    with WriteDone assms(1) show ?thesis by simp
  next
    case (Some wr)
    with WriteDone assms(2) have r: "res \<noteq> IoOk"
      by (simp add: may_clear_dirty_def)
    obtain err s1 w1 again where f: "save_finish res wr (db st) (disk st) = (err, s1, w1, again)"
      by (cases "save_finish res wr (db st) (disk st)")
    with save_finish_dirty[OF r, of wr "db st" "disk st"] have "dirty s1 = dirty (db st)"
      by simp
    with WriteDone Some f assms(1) show ?thesis by simp
  qed
qed

lemma write_success_clears:
  "inflight st \<noteq> None \<Longrightarrow> \<not> dirty (db (step (WriteDone IoOk) st))"
  by (auto simp: save_finish_ok)

text \<open>
  Claim C9, as the code has it. A step of the instance takes the dirty flag from true to
  false only if it is the success of the physical write in flight, or a \<^verbatim>\<open>load\<close> (alone
  or inside \<^verbatim>\<open>init\<close>) that returns \<^verbatim>\<open>true\<close>; the success of the write in flight does
  clear it. Every setter call that returns leaves the flag set, and one that throws
  leaves the instance as it was.
\<close>

theorem dirty_flag_transitions:
  "(dirty (db st) \<and> \<not> dirty (db (step a st)) \<longrightarrow> may_clear_dirty a st) \<and>
   (inflight st \<noteq> None \<longrightarrow> \<not> dirty (db (step (WriteDone IoOk) st))) \<and>
   (case fst (apply_call e c s) of
      Inr v \<Rightarrow> dirty (store_after (apply_call e c s))
    | Inl err \<Rightarrow> store_after (apply_call e c s) = s)"
  using step_keeps_dirty[of st a] write_success_clears[of st] apply_call_dirty[of e c s]
  by blast

lemma sys2_db:
  "db sys2 = store0\<lparr>globalSettings := (JNull, fmupd ''autoread'' (JBool False) fmempty),
      updateTimes := fmupd ''global'' (fmupd ''autoread'' ''2026-01-01T00:00:00.000Z'' fmempty) fmempty,
      dirty := True, events := [Update Global ''autoread'' (JBool False)]\<rparr>"
  by (simp add: sys2_def setGlobal_def store_after_def persist_save_False Let_def emit_def
      setUpdateTime_def jset_own)
     (simp add: store0_eq env0_def null_object_def)

lemma load_sys2:
  "load env1 (db sys2) (disk sys2) = (True, adopt env1 document1 (db sys2), world1, None)"
  by (simp add: load_def load_local_def sys2_db store0_eq)
     (simp add: sys2_def world1_def env1_def)

lemma step_load_sys2:
  "step (LoadCall env1) sys2 = sys2\<lparr>db := adopt env1 document1 (db sys2), disk := world1\<rparr>"
  by (simp add: load_sys2 loaded_def)

text \<open>
  Claim C9 as stated fails at \<^verbatim>\<open>load\<close>: on a dirty instance with a healthy local file
  it clears the flag, and no write is started and nothing on disk changes.
\<close>

theorem load_clears_dirty_without_write:
  "dirty (db sys2) \<and> inflight sys2 = None \<and>
   \<not> dirty (db (step (LoadCall env1) sys2)) \<and>
   started (step (LoadCall env1) sys2) = [] \<and>
   disk (step (LoadCall env1) sys2) = disk sys2"
  unfolding step_load_sys2
  by (simp add: adopt_def sys2_db) (simp add: sys2_def)

theorem dirty_flag_transitions_witness:
  "dirty (db sys2) \<and> \<not> dirty (db (step (LoadCall env1) sys2)) \<and>
   may_clear_dirty (LoadCall env1) sys2 \<and>
   inflight sys1 \<noteq> None \<and> \<not> dirty (db (step (WriteDone IoOk) sys1)) \<and>
   fst (apply_call env0 (ToggleGlobal ''autoread'' False) store0) = Inr (JBool True) \<and>
   dirty (store_after (apply_call env0 (ToggleGlobal ''autoread'' False) store0)) \<and>
   fst (apply_call env0 (SetGroupPluginConfig ''123@g.us'' ''welcome'' JNull True) store0) =
     Inl ConfigObjNotObject \<and>
   store_after (apply_call env0 (SetGroupPluginConfig ''123@g.us'' ''welcome'' JNull True) store0) =
     store0"
proof -
  have a: "dirty (db sys2)" "\<not> dirty (db (step (LoadCall env1) sys2))"
    unfolding step_load_sys2 by (simp_all add: adopt_def sys2_db)
  have b: "inflight sys1 \<noteq> None"
    by (simp add: sys1_def)
  have r1: "fst (apply_call env0 (ToggleGlobal ''autoread'' False) store0) = Inr (JBool True)"
    by (simp add: setter_returns store0_eq jget_def null_object_def)
  have r2: "fst (apply_call env0 (SetGroupPluginConfig ''123@g.us'' ''welcome'' JNull True) store0) =
     Inl ConfigObjNotObject"
    by (simp add: setGroupPluginConfig_def)
  show ?thesis
    using dirty_flag_transitions [of sys2 "LoadCall env1" env0 "ToggleGlobal ''autoread'' False" store0]
      dirty_flag_transitions [of sys1 "WriteDone IoOk" env0
        "SetGroupPluginConfig ''123@g.us'' ''welcome'' JNull True" store0]
      a b r1 r2
    by (simp del: step.simps apply_call.simps)
qed

end
